theory Spec2Isabelle
  imports Complex_Main "HOL-Library.Finite_Map"
begin

section \<open>Python values and builtins used by the parser\<close>

text \<open>
  Strings are byte strings (UTF-8): identifiers, levels and file names of the FIAS data are
  ASCII, so the byte view and Python's code-point view agree on them. Only the ASCII part of
  \<^verbatim>\<open>str.upper\<close>, \<^verbatim>\<open>str.strip\<close> and \<^verbatim>\<open>int\<close> is modelled.
\<close>

datatype error = ValueError | StorageError | ZeroDivisionError

text \<open>Truthiness of \<^verbatim>\<open>attr.get(k)\<close>: \<^verbatim>\<open>None\<close> and the empty string are false.\<close>

definition truthy :: "string option \<Rightarrow> bool" where
  "truthy v = (case v of None \<Rightarrow> False | Some s \<Rightarrow> s \<noteq> [])"

text \<open>ASCII whitespace as \<^verbatim>\<open>str.isspace\<close> has it: codes 9 to 13 and 28 to 32.\<close>

definition py_isspace :: "char \<Rightarrow> bool" where
  "py_isspace c = ((9 \<le> (of_char c :: nat) \<and> (of_char c :: nat) \<le> 13) \<or>
                   (28 \<le> (of_char c :: nat) \<and> (of_char c :: nat) \<le> 32))"

definition py_strip :: "string \<Rightarrow> string" where
  "py_strip s = rev (dropWhile py_isspace (rev (dropWhile py_isspace s)))"

definition py_upper_char :: "char \<Rightarrow> char" where
  "py_upper_char c =
     (if 97 \<le> (of_char c :: nat) \<and> (of_char c :: nat) \<le> 122
      then char_of ((of_char c :: nat) - 32) else c)"

definition py_upper :: "string \<Rightarrow> string" where
  "py_upper s = map py_upper_char s"

text \<open>\<^verbatim>\<open>pat in s\<close> on strings and \<^verbatim>\<open>s.endswith(suf)\<close>.\<close>

fun starts_with :: "string \<Rightarrow> string \<Rightarrow> bool" where
  "starts_with [] s = True"
| "starts_with (p # ps) [] = False"
| "starts_with (p # ps) (c # cs) = (p = c \<and> starts_with ps cs)"

fun py_in :: "string \<Rightarrow> string \<Rightarrow> bool" where
  "py_in pat [] = (pat = [])"
| "py_in pat (c # cs) = (starts_with pat (c # cs) \<or> py_in pat cs)"

definition py_endswith :: "string \<Rightarrow> string \<Rightarrow> bool" where
  "py_endswith s suf = starts_with (rev suf) (rev s)"

text \<open>\<^verbatim>\<open>str(n)\<close> for an integer: decimal digits, a leading minus sign when negative.\<close>

definition digit_char :: "nat \<Rightarrow> char" where
  "digit_char d = char_of (48 + d)"

fun nat_digits :: "nat \<Rightarrow> string" where
  "nat_digits n = (if n < 10 then [digit_char n] else nat_digits (n div 10) @ [digit_char (n mod 10)])"

declare nat_digits.simps [simp del]

definition py_str :: "int \<Rightarrow> string" where
  "py_str i = (if i < 0 then CHR ''-'' # nat_digits (nat (- i)) else nat_digits (nat i))"

text \<open>
  \<^verbatim>\<open>int(s)\<close> for a string, base 10: surrounding whitespace is stripped, one sign is allowed,
  then digits, where single underscores may separate digits. \<open>None\<close> stands for the
  \<^verbatim>\<open>ValueError\<close> Python raises.
\<close>

definition is_digit :: "char \<Rightarrow> bool" where
  "is_digit c = (48 \<le> (of_char c :: nat) \<and> (of_char c :: nat) \<le> 57)"

definition digit_val :: "char \<Rightarrow> nat" where
  "digit_val c = (of_char c :: nat) - 48"

fun digits_value :: "nat \<Rightarrow> string \<Rightarrow> nat option" where
  "digits_value acc [] = Some acc"
| "digits_value acc [c] = (if is_digit c then Some (10 * acc + digit_val c) else None)"
| "digits_value acc (c # d # cs) =
     (if is_digit c then
        (if d = CHR ''_'' then
           (case cs of [] \<Rightarrow> None
            | e # es \<Rightarrow> if is_digit e then digits_value (10 * acc + digit_val c) cs else None)
         else digits_value (10 * acc + digit_val c) (d # cs))
      else None)"

definition py_int :: "string \<Rightarrow> int option" where
  "py_int s =
     (let t = py_strip s;
          neg = (t \<noteq> [] \<and> hd t = CHR ''-'');
          body = (if t \<noteq> [] \<and> (hd t = CHR ''-'' \<or> hd t = CHR ''+'') then tl t else t)
      in if body = [] then None
         else (case digits_value 0 body of
                 None \<Rightarrow> None
               | Some n \<Rightarrow> Some (if neg then - int n else int n)))"

section \<open>XML events\<close>

text \<open>
  \<^verbatim>\<open>lxml.etree.iterparse(path, events=('end',))\<close> yields the elements of a file in document
  order; every element of the FIAS files carries attributes only. A file is the list of its
  end events, an element is its tag and its attributes as a list of pairs of name and value.
\<close>

record element =
  tag :: string
  attrib :: "(string \<times> string) list"

text \<open>\<^verbatim>\<open>elem.attrib.get(k)\<close>; the attribute names of an element are distinct.\<close>

definition attr_get :: "element \<Rightarrow> string \<Rightarrow> string option" where
  "attr_get e k = map_of (attrib e) k"

type_synonym xml_file = "element list"

section \<open>Configuration and the file system\<close>

text \<open>
  The configuration dictionary, reduced to the entries the parser reads for its data flow.
  \<^verbatim>\<open>config.get('REGION_CODE')\<close> may be absent or empty.
\<close>

record config =
  REGION_CODE :: "string option"
  XML_DIRECTORY :: string

text \<open>
  What the parser sees of the operating system: \<^verbatim>\<open>os.path.join\<close>, the state of a directory
  (\<^verbatim>\<open>os.path.exists\<close> is false; \<^verbatim>\<open>os.listdir\<close> raises; or the directory lists its entries)
  and the event stream of the file at a path.
\<close>

datatype dir_state = Missing | Unreadable | Listing "string list"

record os_env =
  path_join :: "string \<Rightarrow> string \<Rightarrow> string"
  directory :: "string \<Rightarrow> dir_state"
  iterparse :: "string \<Rightarrow> xml_file"

definition search_dirs :: "config \<Rightarrow> os_env \<Rightarrow> string \<Rightarrow> string list" where
  "search_dirs cfg os dir =
     (if truthy (REGION_CODE cfg) then [dir, path_join os dir (the (REGION_CODE cfg))] else [dir])"

definition file_matches :: "string \<Rightarrow> string \<Rightarrow> bool" where
  "file_matches pattern filename = (py_in pattern (py_upper filename) \<and> py_endswith filename ''.XML'')"

definition files_in_dir :: "os_env \<Rightarrow> string \<Rightarrow> string \<Rightarrow> string list" where
  "files_in_dir os pattern search_dir =
     (case directory os search_dir of
        Listing names \<Rightarrow> map (path_join os search_dir) (filter (file_matches pattern) names)
      | Unreadable \<Rightarrow> []
      | Missing \<Rightarrow> [])"

definition find_files :: "config \<Rightarrow> os_env \<Rightarrow> string \<Rightarrow> string \<Rightarrow> string list" where
  "find_files cfg os dir pattern = concat (map (files_in_dir os pattern) (search_dirs cfg os dir))"

definition read_files :: "config \<Rightarrow> os_env \<Rightarrow> string \<Rightarrow> string \<Rightarrow> xml_file list" where
  "read_files cfg os dir pattern = map (iterparse os) (find_files cfg os dir pattern)"

section \<open>The hierarchy index\<close>

type_synonym level_map = "(string, string) fmap"
type_synonym hierarchy_map = "(string, string) fmap"

text \<open>Step 1 of \<^verbatim>\<open>load_hierarchy_and_levels\<close>: the body of the loop over \<^verbatim>\<open>OBJECT\<close> elements.\<close>

definition level_step :: "level_map \<Rightarrow> element \<Rightarrow> level_map" where
  "level_step lm e =
     (if tag e = ''OBJECT'' then
        (if attr_get e ''ISACTUAL'' = Some ''1'' \<and> attr_get e ''ISACTIVE'' = Some ''1'' then
           (if truthy (attr_get e ''OBJECTID'') \<and> truthy (attr_get e ''LEVEL'')
            then fmupd (the (attr_get e ''OBJECTID'')) (the (attr_get e ''LEVEL'')) lm
            else lm)
         else lm)
      else lm)"

text \<open>Step 2: the municipal scan writes unconditionally.\<close>

definition mun_step :: "hierarchy_map \<Rightarrow> element \<Rightarrow> hierarchy_map" where
  "mun_step hm e =
     (if tag e = ''ITEM'' then
        (if attr_get e ''ISACTIVE'' = Some ''1'' then
           (if truthy (attr_get e ''OBJECTID'') \<and> truthy (attr_get e ''PARENTOBJID'')
            then fmupd (the (attr_get e ''OBJECTID'')) (the (attr_get e ''PARENTOBJID'')) hm
            else hm)
         else hm)
      else hm)"

text \<open>Step 3: the administrative scan writes only keys that are still absent.\<close>

definition adm_step :: "hierarchy_map \<Rightarrow> element \<Rightarrow> hierarchy_map" where
  "adm_step hm e =
     (if tag e = ''ITEM'' then
        (if attr_get e ''ISACTIVE'' = Some ''1'' then
           (if truthy (attr_get e ''OBJECTID'') \<and> truthy (attr_get e ''PARENTOBJID'')
            then (if fmlookup hm (the (attr_get e ''OBJECTID'')) = None
                  then fmupd (the (attr_get e ''OBJECTID'')) (the (attr_get e ''PARENTOBJID'')) hm
                  else hm)
            else hm)
         else hm)
      else hm)"

text \<open>The three scans, each a loop over the files of its group and over the events of a file.\<close>

definition scan_files :: "('m \<Rightarrow> element \<Rightarrow> 'm) \<Rightarrow> 'm \<Rightarrow> xml_file list \<Rightarrow> 'm" where
  "scan_files step m files = foldl (\<lambda>acc file. foldl step acc file) m files"

text \<open>
  \<^verbatim>\<open>load_hierarchy_and_levels\<close>: both dictionaries are reset, then filled by the level scan,
  the municipal scan and the administrative scan, in this order. The counters of the source
  only feed its progress output.
\<close>

definition load_hierarchy_and_levels :: "config \<Rightarrow> os_env \<Rightarrow> string \<Rightarrow> level_map \<times> hierarchy_map" where
  "load_hierarchy_and_levels cfg os xml_directory =
     (let lm = scan_files level_step fmempty (read_files cfg os xml_directory ''AS_ADDR_OBJ'');
          hm1 = scan_files mun_step fmempty (read_files cfg os xml_directory ''AS_MUN_HIERARCHY'');
          hm2 = scan_files adm_step hm1 (read_files cfg os xml_directory ''AS_ADM_HIERARCHY'')
      in (lm, hm2))"

section \<open>The parent resolver\<close>

text \<open>\<^verbatim>\<open>level in target_levels\<close> where the level comes from \<^verbatim>\<open>level_map.get\<close>.\<close>

definition level_in :: "string option \<Rightarrow> string list \<Rightarrow> bool" where
  "level_in lv targets = (case lv of None \<Rightarrow> False | Some l \<Rightarrow> l \<in> set targets)"

text \<open>\<^verbatim>\<open>int(s)\<close> as a statement that may raise.\<close>

definition int_result :: "string \<Rightarrow> error + int option" where
  "int_result s = (case py_int s of None \<Rightarrow> Inl ValueError | Some n \<Rightarrow> Inr (Some n))"

text \<open>
  The \<^verbatim>\<open>while\<close> loop of \<^verbatim>\<open>find_parent_by_level\<close>; its state is \<^verbatim>\<open>current_id\<close> and
  \<^verbatim>\<open>visited\<close>. The dictionary is finite, and every iteration that continues adds a key of
  the dictionary to \<^verbatim>\<open>visited\<close>.
\<close>

function (domintros) walk_by_level ::
  "level_map \<Rightarrow> hierarchy_map \<Rightarrow> string list \<Rightarrow> string \<Rightarrow> string set \<Rightarrow> error + int option" where
  "walk_by_level lm hm targets current_id visited =
     (if current_id \<noteq> [] \<and> current_id \<notin> visited then
        (case fmlookup hm current_id of
           Some parent_id \<Rightarrow>
             (if level_in (fmlookup lm parent_id) targets then int_result parent_id
              else walk_by_level lm hm targets parent_id (insert current_id visited))
         | None \<Rightarrow> Inr None)
      else Inr None)"
  by pat_completeness auto
termination
proof (relation "measure (\<lambda>(lm, hm, targets, current_id, visited). card (fmdom' hm - visited))")
  show "wf (measure (\<lambda>(lm, hm, targets, current_id, visited). card (fmdom' hm - visited)))"
    by simp
next
  fix lm hm :: "(string, string) fmap" and targets :: "string list"
    and current_id parent_id :: string and visited :: "string set"
  assume c: "current_id \<noteq> [] \<and> current_id \<notin> visited"
    and l: "fmlookup hm current_id = Some parent_id"
  have m: "current_id \<in> fmdom' hm - visited"
    using c l by (simp add: fmdom'I)
  have "fmdom' hm - insert current_id visited = (fmdom' hm - visited) - {current_id}"
    by auto
  moreover have "card ((fmdom' hm - visited) - {current_id}) < card (fmdom' hm - visited)"
    using m by (intro card_Diff1_less) auto
  ultimately show "((lm, hm, targets, parent_id, insert current_id visited),
                    (lm, hm, targets, current_id, visited))
    \<in> measure (\<lambda>(lm, hm, targets, current_id, visited). card (fmdom' hm - visited))"
    by simp
qed

declare walk_by_level.simps [simp del]

text \<open>
  \<^verbatim>\<open>find_parent_by_level\<close>. Every caller of the pipeline passes the \<^verbatim>\<open>objectid\<close> column of a
  table row, an integer, for which \<^verbatim>\<open>not objectid\<close> means zero; the dictionaries are keyed by
  \<^verbatim>\<open>str(objectid)\<close>, and the result is \<^verbatim>\<open>int\<close> of the key found.
\<close>

definition find_parent_by_level ::
  "level_map \<Rightarrow> hierarchy_map \<Rightarrow> int \<Rightarrow> string list \<Rightarrow> error + int option" where
  "find_parent_by_level lm hm objectid target_levels =
     (if objectid = 0 then Inr None
      else if level_in (fmlookup lm (py_str objectid)) target_levels
           then int_result (py_str objectid)
           else walk_by_level lm hm target_levels (py_str objectid) {})"

text \<open>The loop of \<^verbatim>\<open>find_mo_parent\<close>, with the literal level list of the source.\<close>

function walk_mo :: "level_map \<Rightarrow> hierarchy_map \<Rightarrow> string \<Rightarrow> string set \<Rightarrow> error + int option" where
  "walk_mo lm hm current_id visited =
     (if current_id \<noteq> [] \<and> current_id \<notin> visited then
        (case fmlookup hm current_id of
           Some parent_id \<Rightarrow>
             (if level_in (fmlookup lm parent_id) [''3'', ''4''] then int_result parent_id
              else walk_mo lm hm parent_id (insert current_id visited))
         | None \<Rightarrow> Inr None)
      else Inr None)"
  by pat_completeness auto
termination
proof (relation "measure (\<lambda>(lm, hm, current_id, visited). card (fmdom' hm - visited))")
  show "wf (measure (\<lambda>(lm, hm, current_id, visited). card (fmdom' hm - visited)))"
    by simp
next
  fix lm hm :: "(string, string) fmap" and current_id parent_id :: string
    and visited :: "string set"
  assume c: "current_id \<noteq> [] \<and> current_id \<notin> visited"
    and l: "fmlookup hm current_id = Some parent_id"
  have m: "current_id \<in> fmdom' hm - visited"
    using c l by (simp add: fmdom'I)
  have "fmdom' hm - insert current_id visited = (fmdom' hm - visited) - {current_id}"
    by auto
  moreover have "card ((fmdom' hm - visited) - {current_id}) < card (fmdom' hm - visited)"
    using m by (intro card_Diff1_less) auto
  ultimately show "((lm, hm, parent_id, insert current_id visited), (lm, hm, current_id, visited))
    \<in> measure (\<lambda>(lm, hm, current_id, visited). card (fmdom' hm - visited))"
    by simp
qed

declare walk_mo.simps [simp del]

definition find_mo_parent :: "level_map \<Rightarrow> hierarchy_map \<Rightarrow> int \<Rightarrow> error + int option" where
  "find_mo_parent lm hm objectid =
     (if objectid = 0 then Inr None
      else if level_in (fmlookup lm (py_str objectid)) [''3'', ''4'']
           then int_result (py_str objectid)
           else walk_mo lm hm (py_str objectid) {})"

text \<open>The chain of ancestors: \<open>nth_parent hm c n\<close> is the id reached from \<open>c\<close> by \<open>n\<close> parent edges.\<close>

fun nth_parent :: "hierarchy_map \<Rightarrow> string \<Rightarrow> nat \<Rightarrow> string option" where
  "nth_parent hm c 0 = Some c"
| "nth_parent hm c (Suc n) = (case fmlookup hm c of None \<Rightarrow> None | Some p \<Rightarrow> nth_parent hm p n)"

section \<open>The relational store\<close>

text \<open>
  The five tables of \<^verbatim>\<open>create_schema\<close>, each a list of rows in insertion order. The columns
  \<^verbatim>\<open>id\<close>, \<^verbatim>\<open>objectid\<close>, \<^verbatim>\<open>objectguid\<close>, \<^verbatim>\<open>isactual\<close>, \<^verbatim>\<open>isactive\<close> and \<^verbatim>\<open>updatedate\<close> are common
  to all tables; the three address tables share \<^verbatim>\<open>name\<close>, \<^verbatim>\<open>typename\<close> and \<^verbatim>\<open>level\<close>. Columns the
  parser never writes (\<^verbatim>\<open>cadastral_number\<close>, \<^verbatim>\<open>area\<close> and \<^verbatim>\<open>category\<close> of \<^verbatim>\<open>land_plots\<close>) are
  left out. The field \<open>row_id\<close> is the column \<^verbatim>\<open>id\<close>; \<open>None\<close> is SQL's \<^verbatim>\<open>NULL\<close>.
\<close>

record row_key =
  row_id :: int
  objectid :: int
  objectguid :: "string option"
  isactual :: int
  isactive :: int
  updatedate :: "string option"

record addr_object = row_key +
  name :: string
  typename :: string
  level :: string

record municipality = addr_object +
  parent_id :: "int option"

record settlement = addr_object +
  settlement_municipality_id :: "int option"

record street = addr_object +
  street_settlement_id :: "int option"
  street_municipality_id :: "int option"

record house = row_key +
  house_number :: "string option"
  building_number :: "string option"
  structure_number :: "string option"
  street_id :: "int option"
  settlement_id :: "int option"
  municipality_id :: "int option"
  cadastral_number :: "string option"
  floors_count :: "int option"
  residents_count :: "int option"
  full_address :: "string option"

record land_plot = row_key +
  number_plot :: "string option"
  plot_settlement_id :: "int option"
  plot_municipality_id :: "int option"

record store =
  municipalities :: "municipality list"
  settlements :: "settlement list"
  streets :: "street list"
  houses :: "house list"
  land_plots :: "land_plot list"

text \<open>\<^verbatim>\<open>create_schema\<close> drops the five tables and creates them again.\<close>

definition create_schema :: store where
  "create_schema = \<lparr>municipalities = [], settlements = [], streets = [], houses = [], land_plots = []\<rparr>"

text \<open>
  The server turns a quoted literal into a \<^verbatim>\<open>BIGINT\<close> and refuses integers outside 64 bits; the
  decimal syntax is taken from \<open>py_int\<close>. Length limits of the \<^verbatim>\<open>VARCHAR\<close> columns and the
  syntax of dates are not modelled: those values are stored as they come.
\<close>

definition bigint_ok :: "int \<Rightarrow> bool" where
  "bigint_ok n = (- (2 ^ 63) \<le> n \<and> n < 2 ^ 63)"

definition pg_bigint :: "string \<Rightarrow> int option" where
  "pg_bigint s = (case py_int s of None \<Rightarrow> None | Some n \<Rightarrow> if bigint_ok n then Some n else None)"

text \<open>\<^verbatim>\<open>if x:\<close> on an integer that may be \<^verbatim>\<open>None\<close>.\<close>

definition truthy_int :: "int option \<Rightarrow> bool" where
  "truthy_int v = (case v of None \<Rightarrow> False | Some n \<Rightarrow> n \<noteq> 0)"

text \<open>A loop whose body may raise: the first error ends it.\<close>

fun fold_err :: "('s \<Rightarrow> 'a \<Rightarrow> error + 's) \<Rightarrow> 's \<Rightarrow> 'a list \<Rightarrow> error + 's" where
  "fold_err f s [] = Inr s"
| "fold_err f s (x # xs) = (case f s x of Inl err \<Rightarrow> Inl err | Inr s' \<Rightarrow> fold_err f s' xs)"

text \<open>
  \<^verbatim>\<open>INSERT ... ON CONFLICT (objectid) DO NOTHING\<close> of one row: \<^verbatim>\<open>id\<close> and \<^verbatim>\<open>objectid\<close> must be
  present and numeric; a row whose \<^verbatim>\<open>objectid\<close> is already there is skipped; a second row with
  the same primary key \<^verbatim>\<open>id\<close> is a unique violation.
\<close>

definition insert_row ::
  "('a row_key_scheme) list \<Rightarrow> string option \<Rightarrow> string option \<Rightarrow>
   (int \<Rightarrow> int \<Rightarrow> 'a row_key_scheme) \<Rightarrow> error + ('a row_key_scheme) list" where
  "insert_row table id_attr objectid_attr mk =
     (case id_attr of None \<Rightarrow> Inl StorageError
      | Some i \<Rightarrow>
     (case objectid_attr of None \<Rightarrow> Inl StorageError
      | Some ob \<Rightarrow>
     (case pg_bigint i of None \<Rightarrow> Inl StorageError
      | Some ri \<Rightarrow>
     (case pg_bigint ob of None \<Rightarrow> Inl StorageError
      | Some ro \<Rightarrow>
        if ro \<in> set (map objectid table) then Inr table
        else if ri \<in> set (map row_id table) then Inl StorageError
        else Inr (table @ [mk ri ro])))))"

text \<open>\<^verbatim>\<open>SELECT ... WHERE objectid = k\<close> on a table whose \<^verbatim>\<open>objectid\<close> column is unique.\<close>

definition lookup_row :: "('a row_key_scheme) list \<Rightarrow> int \<Rightarrow> ('a row_key_scheme) option" where
  "lookup_row table k = find (\<lambda>r. objectid r = k) table"

text \<open>\<^verbatim>\<open>UPDATE ... SET ... WHERE objectid = k\<close> with the assignment \<open>f\<close>.\<close>

definition update_where ::
  "('a row_key_scheme \<Rightarrow> 'a row_key_scheme) \<Rightarrow> int \<Rightarrow> ('a row_key_scheme) list \<Rightarrow> ('a row_key_scheme) list" where
  "update_where f k table = map (\<lambda>r. if objectid r = k then f r else r) table"

text \<open>An integer parameter of a statement must fit the \<^verbatim>\<open>BIGINT\<close> column it is assigned to.\<close>

definition param_ok :: "int option \<Rightarrow> bool" where
  "param_ok v = (case v of None \<Rightarrow> True | Some n \<Rightarrow> bigint_ok n)"

section \<open>Staging the address objects\<close>

definition both_flags :: "element \<Rightarrow> bool" where
  "both_flags e = (attr_get e ''ISACTUAL'' = Some ''1'' \<and> attr_get e ''ISACTIVE'' = Some ''1'')"

definition attr_or :: "element \<Rightarrow> string \<Rightarrow> string \<Rightarrow> string" where
  "attr_or e k d = (case attr_get e k of None \<Rightarrow> d | Some v \<Rightarrow> v)"

definition new_municipality :: "element \<Rightarrow> int \<Rightarrow> int \<Rightarrow> municipality" where
  "new_municipality e ri ro =
     \<lparr>row_id = ri, objectid = ro, objectguid = attr_get e ''OBJECTGUID'',
      isactual = 1, isactive = 1, updatedate = attr_get e ''UPDATEDATE'',
      name = attr_or e ''NAME'' [], typename = attr_or e ''TYPENAME'' [],
      level = attr_or e ''LEVEL'' [], parent_id = None\<rparr>"

definition new_settlement :: "element \<Rightarrow> int \<Rightarrow> int \<Rightarrow> settlement" where
  "new_settlement e ri ro =
     \<lparr>row_id = ri, objectid = ro, objectguid = attr_get e ''OBJECTGUID'',
      isactual = 1, isactive = 1, updatedate = attr_get e ''UPDATEDATE'',
      name = attr_or e ''NAME'' [], typename = attr_or e ''TYPENAME'' [],
      level = attr_or e ''LEVEL'' [], settlement_municipality_id = None\<rparr>"

definition new_street :: "element \<Rightarrow> int \<Rightarrow> int \<Rightarrow> street" where
  "new_street e ri ro =
     \<lparr>row_id = ri, objectid = ro, objectguid = attr_get e ''OBJECTGUID'',
      isactual = 1, isactive = 1, updatedate = attr_get e ''UPDATEDATE'',
      name = attr_or e ''NAME'' [], typename = attr_or e ''TYPENAME'' [],
      level = attr_or e ''LEVEL'' [],
      street_settlement_id = None, street_municipality_id = None\<rparr>"

text \<open>
  The loop body of \<^verbatim>\<open>process_addr_objects\<close>. The source collects the rows of a file in three
  batches and hands each batch to \<^verbatim>\<open>executemany\<close> when it reaches 5000 rows and at the end of
  the file; every table receives its rows in document order either way, and an error in any
  insert ends the run, so the row is inserted here when it is read.
\<close>

definition addr_step :: "store \<Rightarrow> element \<Rightarrow> error + store" where
  "addr_step st e =
     (if tag e = ''OBJECT'' \<and> both_flags e then
        (if attr_or e ''LEVEL'' [] \<in> set [''3'', ''4''] then
           (case insert_row (municipalities st) (attr_get e ''ID'') (attr_get e ''OBJECTID'')
                   (new_municipality e) of
              Inl err \<Rightarrow> Inl err
            | Inr t \<Rightarrow> Inr (st\<lparr>municipalities := t\<rparr>))
         else if attr_or e ''LEVEL'' [] \<in> set [''5'', ''6''] then
           (case insert_row (settlements st) (attr_get e ''ID'') (attr_get e ''OBJECTID'')
                   (new_settlement e) of
              Inl err \<Rightarrow> Inl err
            | Inr t \<Rightarrow> Inr (st\<lparr>settlements := t\<rparr>))
         else if attr_or e ''LEVEL'' [] \<in> set [''7'', ''8''] then
           (case insert_row (streets st) (attr_get e ''ID'') (attr_get e ''OBJECTID'')
                   (new_street e) of
              Inl err \<Rightarrow> Inl err
            | Inr t \<Rightarrow> Inr (st\<lparr>streets := t\<rparr>))
         else Inr st)
      else Inr st)"

definition process_addr_objects :: "config \<Rightarrow> os_env \<Rightarrow> string \<Rightarrow> store \<Rightarrow> error + store" where
  "process_addr_objects cfg os xml_directory st =
     (if find_files cfg os xml_directory ''AS_ADDR_OBJ'' = [] then Inr st
      else fold_err addr_step st (concat (read_files cfg os xml_directory ''AS_ADDR_OBJ'')))"

section \<open>Filling the parent columns\<close>

text \<open>
  \<^verbatim>\<open>build_hierarchy_links_fixed\<close>, part 1: for every \<^verbatim>\<open>objectid\<close> of \<^verbatim>\<open>municipalities\<close>, fetched
  before the loop, the municipality found by \<^verbatim>\<open>find_mo_parent\<close> is written to \<^verbatim>\<open>parent_id\<close>
  unless it is missing, zero or the row's own id.
\<close>

definition link_municipality :: "level_map \<Rightarrow> hierarchy_map \<Rightarrow> store \<Rightarrow> int \<Rightarrow> error + store" where
  "link_municipality lm hm st mun_id =
     (case find_mo_parent lm hm mun_id of
        Inl err \<Rightarrow> Inl err
      | Inr found \<Rightarrow>
          if truthy_int found \<and> found \<noteq> Some mun_id then
            (if param_ok found
             then Inr (st\<lparr>municipalities :=
                          update_where (\<lambda>r. r\<lparr>parent_id := found\<rparr>) mun_id (municipalities st)\<rparr>)
             else Inl StorageError)
          else Inr st)"

text \<open>Part 2: settlements take the result of \<^verbatim>\<open>find_mo_parent\<close> whenever it is truthy.\<close>

definition link_settlement :: "level_map \<Rightarrow> hierarchy_map \<Rightarrow> store \<Rightarrow> int \<Rightarrow> error + store" where
  "link_settlement lm hm st stl_id =
     (case find_mo_parent lm hm stl_id of
        Inl err \<Rightarrow> Inl err
      | Inr mo_id \<Rightarrow>
          if truthy_int mo_id then
            (if param_ok mo_id
             then Inr (st\<lparr>settlements :=
                          update_where (\<lambda>r. r\<lparr>settlement_municipality_id := mo_id\<rparr>) stl_id
                            (settlements st)\<rparr>)
             else Inl StorageError)
          else Inr st)"

text \<open>Part 3: streets take their settlement from \<^verbatim>\<open>find_parent_by_level(street_id, ['5', '6'])\<close>.\<close>

definition link_street :: "level_map \<Rightarrow> hierarchy_map \<Rightarrow> store \<Rightarrow> int \<Rightarrow> error + store" where
  "link_street lm hm st str_id =
     (case find_parent_by_level lm hm str_id [''5'', ''6''] of
        Inl err \<Rightarrow> Inl err
      | Inr stl \<Rightarrow>
          if truthy_int stl then
            (if param_ok stl
             then Inr (st\<lparr>streets :=
                          update_where (\<lambda>r. r\<lparr>street_settlement_id := stl\<rparr>) str_id (streets st)\<rparr>)
             else Inl StorageError)
          else Inr st)"

text \<open>
  Part 4, one \<^verbatim>\<open>UPDATE ... FROM settlements s\<close>: a street whose settlement row has a
  municipality takes it.
\<close>

definition street_via_settlement :: "settlement list \<Rightarrow> street \<Rightarrow> street" where
  "street_via_settlement stls r =
     (case street_settlement_id r of
        None \<Rightarrow> r
      | Some sid \<Rightarrow>
          (case lookup_row stls sid of
             None \<Rightarrow> r
           | Some s \<Rightarrow>
               (case settlement_municipality_id s of
                  None \<Rightarrow> r
                | Some m \<Rightarrow> r\<lparr>street_municipality_id := Some m\<rparr>)))"

definition build_hierarchy_links_fixed :: "level_map \<Rightarrow> hierarchy_map \<Rightarrow> store \<Rightarrow> error + store" where
  "build_hierarchy_links_fixed lm hm st =
     (case fold_err (link_municipality lm hm) st (map objectid (municipalities st)) of
        Inl err \<Rightarrow> Inl err
      | Inr st1 \<Rightarrow>
     (case fold_err (link_settlement lm hm) st1 (map objectid (settlements st1)) of
        Inl err \<Rightarrow> Inl err
      | Inr st2 \<Rightarrow>
     (case fold_err (link_street lm hm) st2 (map objectid (streets st2)) of
        Inl err \<Rightarrow> Inl err
      | Inr st3 \<Rightarrow>
          Inr (st3\<lparr>streets := map (street_via_settlement (settlements st3)) (streets st3)\<rparr>))))"

section \<open>Houses\<close>

definition new_house :: "element \<Rightarrow> int \<Rightarrow> int \<Rightarrow> house" where
  "new_house e ri ro =
     \<lparr>row_id = ri, objectid = ro, objectguid = attr_get e ''OBJECTGUID'',
      isactual = 1, isactive = 1, updatedate = attr_get e ''UPDATEDATE'',
      house_number = attr_get e ''HOUSENUM'', building_number = attr_get e ''ADDNUM1'',
      structure_number = attr_get e ''ADDNUM2'',
      street_id = None, settlement_id = None, municipality_id = None,
      cadastral_number = None, floors_count = None, residents_count = None,
      full_address = None\<rparr>"

definition house_step :: "store \<Rightarrow> element \<Rightarrow> error + store" where
  "house_step st e =
     (if tag e = ''HOUSE'' \<and> both_flags e then
        (case insert_row (houses st) (attr_get e ''ID'') (attr_get e ''OBJECTID'') (new_house e) of
           Inl err \<Rightarrow> Inl err
         | Inr t \<Rightarrow> Inr (st\<lparr>houses := t\<rparr>))
      else Inr st)"

text \<open>
  \<^verbatim>\<open>process_houses\<close>: the parameter files, which the pattern \<^verbatim>\<open>AS_HOUSES\<close> also finds, are
  dropped by a test on the whole path.
\<close>

definition house_files :: "config \<Rightarrow> os_env \<Rightarrow> string \<Rightarrow> string list" where
  "house_files cfg os xml_directory =
     filter (\<lambda>f. \<not> py_in ''PARAM'' (py_upper f)) (find_files cfg os xml_directory ''AS_HOUSES'')"

definition process_houses :: "config \<Rightarrow> os_env \<Rightarrow> string \<Rightarrow> store \<Rightarrow> error + store" where
  "process_houses cfg os xml_directory st =
     (if find_files cfg os xml_directory ''AS_HOUSES'' = [] then Inr st
      else if house_files cfg os xml_directory = [] then Inr st
      else fold_err house_step st (concat (map (iterparse os) (house_files cfg os xml_directory))))"

text \<open>
  \<^verbatim>\<open>link_houses_to_hierarchy_fixed\<close>: three resolver calls per house; when one of the results
  is truthy all three columns are written, a missing result as \<^verbatim>\<open>NULL\<close>. The source sends the
  updates in batches of 1000; each update addresses the row of its own house, so the tables
  at the end are those of updating at once, and any error ends the run either way (which of
  two errors of one run is met first is not tracked).
\<close>

definition link_house :: "level_map \<Rightarrow> hierarchy_map \<Rightarrow> store \<Rightarrow> int \<Rightarrow> error + store" where
  "link_house lm hm st house_id =
     (case find_parent_by_level lm hm house_id [''7'', ''8''] of
        Inl err \<Rightarrow> Inl err
      | Inr str \<Rightarrow>
     (case find_parent_by_level lm hm house_id [''5'', ''6''] of
        Inl err \<Rightarrow> Inl err
      | Inr stl \<Rightarrow>
     (case find_mo_parent lm hm house_id of
        Inl err \<Rightarrow> Inl err
      | Inr mo_id \<Rightarrow>
          if truthy_int str \<or> truthy_int stl \<or> truthy_int mo_id then
            (if param_ok str \<and> param_ok stl \<and> param_ok mo_id
             then Inr (st\<lparr>houses :=
                          update_where
                            (\<lambda>r. r\<lparr>street_id := str, settlement_id := stl, municipality_id := mo_id\<rparr>)
                            house_id (houses st)\<rparr>)
             else Inl StorageError)
          else Inr st)))"

text \<open>
  The closing diagnosis divides by the number of houses without a guard, so the function
  raises \<^verbatim>\<open>ZeroDivisionError\<close> on an empty table.
\<close>

definition link_houses_to_hierarchy_fixed :: "level_map \<Rightarrow> hierarchy_map \<Rightarrow> store \<Rightarrow> error + store" where
  "link_houses_to_hierarchy_fixed lm hm st =
     (case fold_err (link_house lm hm) st (map objectid (houses st)) of
        Inl err \<Rightarrow> Inl err
      | Inr st' \<Rightarrow> if houses st' = [] then Inl ZeroDivisionError else Inr st')"

text \<open>
  \<^verbatim>\<open>fix_municipality_links\<close>: houses and land plots without a municipality take the one of
  their settlement, in one \<^verbatim>\<open>UPDATE\<close> each.
\<close>

definition house_via_settlement :: "settlement list \<Rightarrow> house \<Rightarrow> house" where
  "house_via_settlement stls h =
     (if municipality_id h = None then
        (case settlement_id h of
           None \<Rightarrow> h
         | Some sid \<Rightarrow>
             (case lookup_row stls sid of
                None \<Rightarrow> h
              | Some s \<Rightarrow>
                  (case settlement_municipality_id s of
                     None \<Rightarrow> h
                   | Some m \<Rightarrow> h\<lparr>municipality_id := Some m\<rparr>)))
      else h)"

definition plot_via_settlement :: "settlement list \<Rightarrow> land_plot \<Rightarrow> land_plot" where
  "plot_via_settlement stls p =
     (if plot_municipality_id p = None then
        (case plot_settlement_id p of
           None \<Rightarrow> p
         | Some sid \<Rightarrow>
             (case lookup_row stls sid of
                None \<Rightarrow> p
              | Some s \<Rightarrow>
                  (case settlement_municipality_id s of
                     None \<Rightarrow> p
                   | Some m \<Rightarrow> p\<lparr>plot_municipality_id := Some m\<rparr>)))
      else p)"

definition fix_municipality_links :: "store \<Rightarrow> store" where
  "fix_municipality_links st =
     st\<lparr>houses := map (house_via_settlement (settlements st)) (houses st),
        land_plots := map (plot_via_settlement (settlements st)) (land_plots st)\<rparr>"

section \<open>House parameters\<close>

text \<open>
  \<^verbatim>\<open>float(s)\<close> is a parameter of the model: \<open>None\<close> when it raises \<^verbatim>\<open>ValueError\<close>, else the
  float it returns, a rational number or one of the special values. \<^verbatim>\<open>int(x)\<close> truncates a
  finite float towards zero and raises on the special values.
\<close>

datatype pyfloat = Finite rat | PosInf | NegInf | NaN

type_synonym float_parser = "string \<Rightarrow> pyfloat option"

definition int_of_float :: "pyfloat \<Rightarrow> int option" where
  "int_of_float x =
     (case x of
        Finite q \<Rightarrow> Some (if q < 0 then - \<lfloor>- q\<rfloor> else \<lfloor>q\<rfloor>)
      | PosInf \<Rightarrow> None
      | NegInf \<Rightarrow> None
      | NaN \<Rightarrow> None)"

text \<open>An accepted parameter value: a string for the cadastral number, an integer for a count.\<close>

datatype param_value = PStr string | PInt int

definition param_mapping :: "string \<Rightarrow> string option" where
  "param_mapping typeid =
     (if typeid = ''8'' then Some ''cadastral_number''
      else if typeid = ''14'' then Some ''residents_count''
      else if typeid = ''15'' then Some ''floors_count''
      else None)"

text \<open>\<^verbatim>\<open>validate_param_value\<close>; every exception inside is caught and turns into \<^verbatim>\<open>None\<close>.\<close>

definition validate_param_value :: "float_parser \<Rightarrow> string \<Rightarrow> string \<Rightarrow> param_value option" where
  "validate_param_value flt field_name v =
     (let clean_value = py_strip v in
      if clean_value = [] then None
      else if field_name = ''cadastral_number'' then
        (if py_in '':'' clean_value then Some (PStr (take 100 clean_value)) else None)
      else if field_name \<in> set [''residents_count'', ''floors_count''] then
        (case flt clean_value of
           None \<Rightarrow> None
         | Some x \<Rightarrow>
             (case int_of_float x of
                None \<Rightarrow> None
              | Some num \<Rightarrow> if 0 \<le> num \<and> num \<le> 1000 then Some (PInt num) else None))
      else Some (PStr (take 100 clean_value)))"

text \<open>\<^verbatim>\<open>SET {field_name} = %s\<close> on a house row.\<close>

definition set_field :: "string \<Rightarrow> param_value \<Rightarrow> house \<Rightarrow> house" where
  "set_field field_name v h =
     (if field_name = ''cadastral_number'' then
        (case v of PStr s \<Rightarrow> h\<lparr>cadastral_number := Some s\<rparr> | PInt n \<Rightarrow> h)
      else if field_name = ''residents_count'' then
        (case v of PInt n \<Rightarrow> h\<lparr>residents_count := Some n\<rparr> | PStr s \<Rightarrow> h)
      else if field_name = ''floors_count'' then
        (case v of PInt n \<Rightarrow> h\<lparr>floors_count := Some n\<rparr> | PStr s \<Rightarrow> h)
      else h)"

text \<open>
  The state of the loop of \<^verbatim>\<open>process_house_params\<close>: the table as the open transaction sees
  it, the table as of the last commit, whether the transaction is in the failed state, and the
  two counters of the current file. A statement that fails (the \<^verbatim>\<open>objectid\<close> is not an integer
  literal) raises inside \<^verbatim>\<open>try ... except: pass\<close>; from then on every statement of the
  transaction fails, and the next \<^verbatim>\<open>commit\<close> ends it as a rollback.
\<close>

record param_state =
  current :: "house list"
  committed :: "house list"
  failed :: bool
  processed :: nat
  updated :: nat

definition execute_param :: "param_state \<Rightarrow> string \<Rightarrow> param_value \<Rightarrow> string \<Rightarrow> param_state" where
  "execute_param ps field_name v ob =
     (if failed ps then ps
      else (case pg_bigint ob of
              None \<Rightarrow> ps\<lparr>failed := True\<rparr>
            | Some k \<Rightarrow>
                ps\<lparr>current := update_where (set_field field_name v) k (current ps),
                   updated := updated ps + length (filter (\<lambda>r. objectid r = k) (current ps))\<rparr>))"

definition commit :: "param_state \<Rightarrow> param_state" where
  "commit ps =
     (if failed ps then ps\<lparr>current := committed ps, failed := False\<rparr>
      else ps\<lparr>committed := current ps\<rparr>)"

text \<open>The part of the loop body that reads one \<^verbatim>\<open>PARAM\<close> record and may update a house.\<close>

definition apply_param :: "float_parser \<Rightarrow> param_state \<Rightarrow> element \<Rightarrow> param_state" where
  "apply_param flt ps e =
     (let ps1 = ps\<lparr>processed := processed ps + 1\<rparr> in
      if truthy (attr_get e ''OBJECTID'') \<and> truthy (attr_get e ''TYPEID'') \<and> truthy (attr_get e ''VALUE'')
         \<and> param_mapping (the (attr_get e ''TYPEID'')) \<noteq> None
      then (case validate_param_value flt (the (param_mapping (the (attr_get e ''TYPEID''))))
                   (the (attr_get e ''VALUE'')) of
              None \<Rightarrow> ps1
            | Some clean_value \<Rightarrow>
                execute_param ps1 (the (param_mapping (the (attr_get e ''TYPEID'')))) clean_value
                  (the (attr_get e ''OBJECTID'')))
      else ps1)"

definition param_step :: "float_parser \<Rightarrow> param_state \<Rightarrow> element \<Rightarrow> param_state" where
  "param_step flt ps e =
     (if tag e = ''PARAM'' then
        (let ps' = apply_param flt ps e in
         if processed ps' mod 100000 = 0 then commit ps' else ps')
      else ps)"

text \<open>One file: the counters start at zero. \<^verbatim>\<open>total_updated\<close> only feeds the final message.\<close>

definition param_file :: "float_parser \<Rightarrow> param_state \<Rightarrow> xml_file \<Rightarrow> param_state" where
  "param_file flt ps file = foldl (param_step flt) (ps\<lparr>processed := 0, updated := 0\<rparr>) file"

definition process_house_params ::
  "float_parser \<Rightarrow> config \<Rightarrow> os_env \<Rightarrow> string \<Rightarrow> store \<Rightarrow> store" where
  "process_house_params flt cfg os xml_directory st =
     (if find_files cfg os xml_directory ''AS_HOUSES_PARAMS'' = [] then st
      else st\<lparr>houses :=
             current (commit (foldl (param_file flt)
                \<lparr>current = houses st, committed = houses st, failed = False,
                 processed = 0, updated = 0\<rparr>
                (read_files cfg os xml_directory ''AS_HOUSES_PARAMS'')))\<rparr>)"

section \<open>Land plots\<close>

definition new_land_plot :: "element \<Rightarrow> int \<Rightarrow> int \<Rightarrow> land_plot" where
  "new_land_plot e ri ro =
     \<lparr>row_id = ri, objectid = ro, objectguid = attr_get e ''OBJECTGUID'',
      isactual = 1, isactive = 1, updatedate = attr_get e ''UPDATEDATE'',
      number_plot = attr_get e ''NUMBER'',
      plot_settlement_id = None, plot_municipality_id = None\<rparr>"

definition stead_step :: "store \<Rightarrow> element \<Rightarrow> error + store" where
  "stead_step st e =
     (if tag e = ''STEAD'' \<and> both_flags e then
        (case insert_row (land_plots st) (attr_get e ''ID'') (attr_get e ''OBJECTID'') (new_land_plot e) of
           Inl err \<Rightarrow> Inl err
         | Inr t \<Rightarrow> Inr (st\<lparr>land_plots := t\<rparr>))
      else Inr st)"

definition process_land_plots :: "config \<Rightarrow> os_env \<Rightarrow> string \<Rightarrow> store \<Rightarrow> error + store" where
  "process_land_plots cfg os xml_directory st =
     (if find_files cfg os xml_directory ''AS_STEADS'' = [] then Inr st
      else fold_err stead_step st (concat (read_files cfg os xml_directory ''AS_STEADS'')))"

definition link_land_plot :: "level_map \<Rightarrow> hierarchy_map \<Rightarrow> store \<Rightarrow> int \<Rightarrow> error + store" where
  "link_land_plot lm hm st plot_id =
     (case find_parent_by_level lm hm plot_id [''5'', ''6''] of
        Inl err \<Rightarrow> Inl err
      | Inr stl \<Rightarrow>
     (case find_parent_by_level lm hm plot_id [''3'', ''4''] of
        Inl err \<Rightarrow> Inl err
      | Inr mun \<Rightarrow>
          if truthy_int stl \<or> truthy_int mun then
            (if param_ok stl \<and> param_ok mun
             then Inr (st\<lparr>land_plots :=
                          update_where
                            (\<lambda>r. r\<lparr>plot_settlement_id := stl, plot_municipality_id := mun\<rparr>)
                            plot_id (land_plots st)\<rparr>)
             else Inl StorageError)
          else Inr st))"

definition link_land_plots_to_hierarchy :: "level_map \<Rightarrow> hierarchy_map \<Rightarrow> store \<Rightarrow> error + store" where
  "link_land_plots_to_hierarchy lm hm st =
     fold_err (link_land_plot lm hm) st (map objectid (land_plots st))"

section \<open>Composing the full address\<close>

text \<open>
  \<^verbatim>\<open>CONCAT_WS\<close> joins the arguments that are not \<^verbatim>\<open>NULL\<close>; \<^verbatim>\<open>TRIM\<close> removes spaces at both ends.
  The prefixes are the UTF-8 bytes of the Cyrillic literals of the statement.
\<close>

fun join_with :: "string \<Rightarrow> string list \<Rightarrow> string" where
  "join_with sep [] = []"
| "join_with sep [x] = x"
| "join_with sep (x # y # ys) = x @ sep @ join_with sep (y # ys)"

definition concat_ws :: "string \<Rightarrow> string option list \<Rightarrow> string" where
  "concat_ws sep parts = join_with sep (List.map_filter (\<lambda>p. p) parts)"

definition pg_trim :: "string \<Rightarrow> string" where
  "pg_trim s = rev (dropWhile (\<lambda>c. c = CHR '' '') (rev (dropWhile (\<lambda>c. c = CHR '' '') s)))"

definition house_prefix :: string where
  "house_prefix = [CHR 0xD0, CHR 0xB4, CHR ''.'', CHR '' '']"

definition building_prefix :: string where
  "building_prefix = [CHR 0xD0, CHR 0xBA, CHR ''.'', CHR '' '']"

definition structure_prefix :: string where
  "structure_prefix = [CHR 0xD1, CHR 0x81, CHR 0xD1, CHR 0x82, CHR 0xD1, CHR 0x80, CHR ''.'', CHR '' '']"

definition address_parts :: "municipality \<Rightarrow> settlement \<Rightarrow> street \<Rightarrow> house \<Rightarrow> string option list" where
  "address_parts m s t h =
     [Some (name m),
      Some (typename s @ '' '' @ name s),
      Some (typename t @ '' '' @ name t),
      map_option (\<lambda>n. house_prefix @ n) (house_number h),
      map_option (\<lambda>n. building_prefix @ n) (building_number h),
      map_option (\<lambda>n. structure_prefix @ n) (structure_number h)]"

definition address_of :: "store \<Rightarrow> house \<Rightarrow> string option" where
  "address_of st h =
     (case municipality_id h of None \<Rightarrow> None | Some mi \<Rightarrow>
     (case settlement_id h of None \<Rightarrow> None | Some si \<Rightarrow>
     (case street_id h of None \<Rightarrow> None | Some ti \<Rightarrow>
     (case lookup_row (municipalities st) mi of None \<Rightarrow> None | Some m \<Rightarrow>
     (case lookup_row (settlements st) si of None \<Rightarrow> None | Some s \<Rightarrow>
     (case lookup_row (streets st) ti of None \<Rightarrow> None | Some t \<Rightarrow>
        Some (pg_trim (concat_ws '', '' (address_parts m s t h)))))))))"

definition build_full_addresses :: "store \<Rightarrow> store" where
  "build_full_addresses st =
     st\<lparr>houses := map (\<lambda>h. case address_of st h of
                              None \<Rightarrow> h
                            | Some a \<Rightarrow> h\<lparr>full_address := Some a\<rparr>) (houses st)\<rparr>"

section \<open>The final reconciliation and the pipeline\<close>

text \<open>
  \<^verbatim>\<open>fix_final_mo_connections\<close>: first one \<^verbatim>\<open>UPDATE ... FROM streets st\<close> for the houses without
  a municipality, then a direct lookup for at most 50000 houses that still have none. Which
  50000 rows \<^verbatim>\<open>LIMIT\<close> returns is up to the server; here they are the first in table order.
\<close>

definition house_via_street :: "street list \<Rightarrow> house \<Rightarrow> house" where
  "house_via_street strs h =
     (if municipality_id h = None then
        (case street_id h of
           None \<Rightarrow> h
         | Some ti \<Rightarrow>
             (case lookup_row strs ti of
                None \<Rightarrow> h
              | Some t \<Rightarrow>
                  (case street_municipality_id t of
                     None \<Rightarrow> h
                   | Some m \<Rightarrow> h\<lparr>municipality_id := Some m\<rparr>)))
      else h)"

definition direct_mo :: "level_map \<Rightarrow> hierarchy_map \<Rightarrow> store \<Rightarrow> int \<Rightarrow> error + store" where
  "direct_mo lm hm st house_id =
     (case find_parent_by_level lm hm house_id [''3'', ''4''] of
        Inl err \<Rightarrow> Inl err
      | Inr mo_id \<Rightarrow>
          if truthy_int mo_id then
            (if param_ok mo_id
             then Inr (st\<lparr>houses :=
                          update_where (\<lambda>r. r\<lparr>municipality_id := mo_id\<rparr>) house_id (houses st)\<rparr>)
             else Inl StorageError)
          else Inr st)"

definition fix_final_mo_connections :: "level_map \<Rightarrow> hierarchy_map \<Rightarrow> store \<Rightarrow> error + store" where
  "fix_final_mo_connections lm hm st =
     (let st1 = st\<lparr>houses := map (house_via_street (streets st)) (houses st)\<rparr>;
          remaining_houses =
            take 50000 (map objectid (filter (\<lambda>h. municipality_id h = None) (houses st1)))
      in fold_err (direct_mo lm hm) st1 remaining_houses)"

text \<open>
  \<^verbatim>\<open>main\<close> after a successful \<^verbatim>\<open>connect\<close>, from \<^verbatim>\<open>create_schema\<close> to \<^verbatim>\<open>build_full_addresses\<close>,
  in the order of the source. An exception leaves the \<^verbatim>\<open>try\<close> block and ends the run. The
  statistics that follow only read. \<^verbatim>\<open>fix_final_mo_connections\<close> is not among the calls.
\<close>

definition main :: "float_parser \<Rightarrow> config \<Rightarrow> os_env \<Rightarrow> error + store" where
  "main flt cfg os =
     (let xml = XML_DIRECTORY cfg;
          idx = load_hierarchy_and_levels cfg os xml;
          lm = fst idx;
          hm = snd idx in
      case process_addr_objects cfg os xml create_schema of Inl err \<Rightarrow> Inl err | Inr st1 \<Rightarrow>
      (case build_hierarchy_links_fixed lm hm st1 of Inl err \<Rightarrow> Inl err | Inr st2 \<Rightarrow>
      (case process_houses cfg os xml st2 of Inl err \<Rightarrow> Inl err | Inr st3 \<Rightarrow>
      (case link_houses_to_hierarchy_fixed lm hm st3 of Inl err \<Rightarrow> Inl err | Inr st4 \<Rightarrow>
      (case process_land_plots cfg os xml
              (process_house_params flt cfg os xml (fix_municipality_links st4)) of
         Inl err \<Rightarrow> Inl err | Inr st5 \<Rightarrow>
      (case link_land_plots_to_hierarchy lm hm st5 of Inl err \<Rightarrow> Inl err | Inr st6 \<Rightarrow>
         Inr (build_full_addresses st6)))))))"

section \<open>Notions used to state the properties\<close>

text \<open>
  An active edge \<open>c \<rightarrow> p\<close>: an \<^verbatim>\<open>ITEM\<close> with \<^verbatim>\<open>ISACTIVE = '1'\<close> whose \<^verbatim>\<open>OBJECTID\<close> and
  \<^verbatim>\<open>PARENTOBJID\<close> are the non-empty strings \<open>c\<close> and \<open>p\<close>. An active object: an \<^verbatim>\<open>OBJECT\<close>
  with both flags equal to \<^verbatim>\<open>'1'\<close>.
\<close>

definition active_edge :: "element \<Rightarrow> string \<Rightarrow> string \<Rightarrow> bool" where
  "active_edge e c p =
     (tag e = ''ITEM'' \<and> attr_get e ''ISACTIVE'' = Some ''1'' \<and>
      attr_get e ''OBJECTID'' = Some c \<and> c \<noteq> [] \<and> attr_get e ''PARENTOBJID'' = Some p \<and> p \<noteq> [])"

definition active_object :: "element \<Rightarrow> bool" where
  "active_object e =
     (tag e = ''OBJECT'' \<and> attr_get e ''ISACTUAL'' = Some ''1'' \<and> attr_get e ''ISACTIVE'' = Some ''1'')"

text \<open>The events of a file group, in scan order.\<close>

definition events :: "config \<Rightarrow> os_env \<Rightarrow> string \<Rightarrow> string \<Rightarrow> element list" where
  "events cfg os dir pattern = concat (read_files cfg os dir pattern)"

text \<open>The levels of the target list \<open>targets\<close> as a test on an id.\<close>

definition has_level :: "level_map \<Rightarrow> string list \<Rightarrow> string \<Rightarrow> bool" where
  "has_level lm targets c = level_in (fmlookup lm c) targets"

text \<open>A row of an address table is staged from an element: an active object whose attributes the row carries.\<close>

definition staged_from :: "element \<Rightarrow> 'a addr_object_scheme \<Rightarrow> bool" where
  "staged_from e r =
     (active_object e \<and>
      (\<exists>i ob. attr_get e ''ID'' = Some i \<and> pg_bigint i = Some (row_id r) \<and>
              attr_get e ''OBJECTID'' = Some ob \<and> pg_bigint ob = Some (objectid r)) \<and>
      name r = attr_or e ''NAME'' [] \<and> typename r = attr_or e ''TYPENAME'' [] \<and>
      level r = attr_or e ''LEVEL'' [])"

text \<open>Every row of the three address tables is staged from an element of \<open>es\<close>.\<close>

definition staged_ok :: "element list \<Rightarrow> store \<Rightarrow> bool" where
  "staged_ok es st =
     ((\<forall>r \<in> set (municipalities st). \<exists>e \<in> set es. staged_from e r) \<and>
      (\<forall>r \<in> set (settlements st). \<exists>e \<in> set es. staged_from e r) \<and>
      (\<forall>r \<in> set (streets st). \<exists>e \<in> set es. staged_from e r))"

text \<open>
  The entries of a directory that can be listed, and the case-insensitive containment of a
  pattern in a file name.
\<close>

definition entries :: "os_env \<Rightarrow> string \<Rightarrow> string set" where
  "entries os d = (case directory os d of Listing names \<Rightarrow> set names | Unreadable \<Rightarrow> {} | Missing \<Rightarrow> {})"

definition contains_ci :: "string \<Rightarrow> string \<Rightarrow> bool" where
  "contains_ci pattern filename = (\<exists>u v. py_upper filename = u @ py_upper pattern @ v)"

text \<open>
  The rows of \<open>t0\<close> whose object id has level 3 or 4 in the level map are the same in
  \<open>t\<close>, position by position.
\<close>

definition own_level_rows_kept :: "level_map \<Rightarrow> municipality list \<Rightarrow> municipality list \<Rightarrow> bool" where
  "own_level_rows_kept lm t0 t =
     (length t = length t0 \<and>
      (\<forall>i < length t0. has_level lm [''3'', ''4''] (py_str (objectid (t0 ! i))) \<longrightarrow> t ! i = t0 ! i))"

text \<open>A part of the address that is present: the prefix and the value, or nothing for \<^verbatim>\<open>NULL\<close>.\<close>

definition present_part :: "string \<Rightarrow> string option \<Rightarrow> string list" where
  "present_part prefix v = (case v of None \<Rightarrow> [] | Some n \<Rightarrow> [prefix @ n])"

text \<open>
  A value \<open>v\<close> of the field \<open>field\<close> is accepted for the house \<open>k\<close>: some \<^verbatim>\<open>PARAM\<close>
  record of \<open>es\<close> with the type code \<open>typeid\<close> addresses the house and its value passes
  \<^verbatim>\<open>validate_param_value\<close> with the result \<open>v\<close>.
\<close>

definition accepted ::
  "float_parser \<Rightarrow> element list \<Rightarrow> int \<Rightarrow> string \<Rightarrow> string \<Rightarrow> param_value \<Rightarrow> bool" where
  "accepted flt es k typeid field v =
     (\<exists>e \<in> set es. tag e = ''PARAM'' \<and> attr_get e ''TYPEID'' = Some typeid \<and>
        (\<exists>ob. attr_get e ''OBJECTID'' = Some ob \<and> pg_bigint ob = Some k) \<and>
        (\<exists>raw. attr_get e ''VALUE'' = Some raw \<and> validate_param_value flt field raw = Some v))"

text \<open>
  The row \<open>h\<close> comes from the row \<open>h0\<close> by parameter updates only: each of the three
  parameter fields holds its old value or an accepted one, and nothing else differs.
\<close>

definition fields_from :: "float_parser \<Rightarrow> element list \<Rightarrow> house \<Rightarrow> house \<Rightarrow> bool" where
  "fields_from flt es h0 h =
     ((residents_count h = residents_count h0 \<or>
       (\<exists>n. residents_count h = Some n \<and>
            accepted flt es (objectid h0) ''14'' ''residents_count'' (PInt n))) \<and>
      (floors_count h = floors_count h0 \<or>
       (\<exists>n. floors_count h = Some n \<and>
            accepted flt es (objectid h0) ''15'' ''floors_count'' (PInt n))) \<and>
      (cadastral_number h = cadastral_number h0 \<or>
       (\<exists>s. cadastral_number h = Some s \<and>
            accepted flt es (objectid h0) ''8'' ''cadastral_number'' (PStr s))) \<and>
      h\<lparr>residents_count := residents_count h0, floors_count := floors_count h0,
        cadastral_number := cadastral_number h0\<rparr> = h0)"

definition params_inv :: "float_parser \<Rightarrow> element list \<Rightarrow> house list \<Rightarrow> param_state \<Rightarrow> bool" where
  "params_inv flt es hs0 ps =
     (length (current ps) = length hs0 \<and> length (committed ps) = length hs0 \<and>
      (\<forall>i < length hs0. fields_from flt es (hs0 ! i) (current ps ! i) \<and>
                           fields_from flt es (hs0 ! i) (committed ps ! i)))"

section \<open>Example data\<close>

text \<open>
  Elements, a directory \<^verbatim>\<open>xml\<close> holding the given files, and a configuration, to run the
  functions on the scenarios of the specification. \<open>digits_float\<close> instantiates the float
  parameter on the inputs of the examples only: it agrees with \<^verbatim>\<open>float\<close> on strings of one to
  fifteen decimal digits and is used for nothing else.
\<close>

definition xml_object :: "string \<Rightarrow> string \<Rightarrow> string \<Rightarrow> string \<Rightarrow> string \<Rightarrow> string \<Rightarrow> element" where
  "xml_object i ob lvl nm actual active =
     \<lparr>tag = ''OBJECT'',
      attrib = [(''ID'', i), (''OBJECTID'', ob), (''LEVEL'', lvl), (''NAME'', nm),
                       (''TYPENAME'', ''t''), (''ISACTUAL'', actual), (''ISACTIVE'', active)]\<rparr>"

definition xml_item :: "string \<Rightarrow> string \<Rightarrow> string \<Rightarrow> element" where
  "xml_item c p active =
     \<lparr>tag = ''ITEM'',
      attrib = [(''OBJECTID'', c), (''PARENTOBJID'', p), (''ISACTIVE'', active)]\<rparr>"

definition xml_house :: "string \<Rightarrow> string \<Rightarrow> string \<Rightarrow> element" where
  "xml_house i ob num =
     \<lparr>tag = ''HOUSE'',
      attrib = [(''ID'', i), (''OBJECTID'', ob), (''HOUSENUM'', num),
                       (''ISACTUAL'', ''1''), (''ISACTIVE'', ''1'')]\<rparr>"

definition xml_param :: "string \<Rightarrow> string \<Rightarrow> string \<Rightarrow> element" where
  "xml_param ob typeid v =
     \<lparr>tag = ''PARAM'', attrib = [(''OBJECTID'', ob), (''TYPEID'', typeid), (''VALUE'', v)]\<rparr>"

definition sample_os :: "(string \<times> xml_file) list \<Rightarrow> os_env" where
  "sample_os files =
     \<lparr>path_join = (\<lambda>a b. a @ ''/'' @ b),
      directory = (\<lambda>d. if d = ''xml'' then Listing (map fst files) else Missing),
      iterparse = (\<lambda>p. case map_of (map (\<lambda>(n, f). (''xml/'' @ n, f)) files) p of
                          None \<Rightarrow> [] | Some f \<Rightarrow> f)\<rparr>"

definition sample_config :: config where
  "sample_config = \<lparr>REGION_CODE = Some ''66'', XML_DIRECTORY = ''xml''\<rparr>"

definition digits_float :: float_parser where
  "digits_float s =
     (if s \<noteq> [] \<and> length s \<le> 15 \<and> list_all is_digit s
      then map_option (\<lambda>n. Finite (of_int n)) (py_int s) else None)"

text \<open>Two address objects and two municipal edges, the second of each inactive.\<close>

definition filter_sample :: os_env where
  "filter_sample =
     sample_os [(''AS_ADDR_OBJ.XML'',
                   [xml_object ''1'' ''100'' ''4'' ''M'' ''1'' ''1'',
                    xml_object ''2'' ''101'' ''4'' ''X'' ''1'' ''0'']),
                (''AS_MUN_HIERARCHY.XML'',
                   [xml_item ''200'' ''100'' ''1'', xml_item ''300'' ''100'' ''0''])]"

text \<open>
  The object id 100 occurs in two active records, first with level 4, then with level 6; the
  municipal hierarchy puts 100 under the municipality 50.
\<close>

definition relevel_sample :: os_env where
  "relevel_sample =
     sample_os [(''AS_ADDR_OBJ.XML'',
                   [xml_object ''1'' ''100'' ''4'' ''M'' ''1'' ''1'',
                    xml_object ''2'' ''100'' ''6'' ''S'' ''1'' ''1'',
                    xml_object ''3'' ''50'' ''3'' ''P'' ''1'' ''1'']),
                (''AS_MUN_HIERARCHY.XML'', [xml_item ''100'' ''50'' ''1''])]"

text \<open>
  Scenario 1: municipality 100, settlement 200, street 300 and house 400 with the municipal
  edges 200 \<rightarrow> 100, 300 \<rightarrow> 200 and 400 \<rightarrow> 300. In Scenario 3 the municipal edge of the
  house is missing and the house is tied to its street by the administrative files only.
\<close>

definition scenario_objects :: xml_file where
  "scenario_objects =
     [xml_object ''1'' ''100'' ''4'' ''M'' ''1'' ''1'',
      xml_object ''2'' ''200'' ''6'' ''S'' ''1'' ''1'',
      xml_object ''3'' ''300'' ''8'' ''R'' ''1'' ''1'']"

definition scenario1 :: os_env where
  "scenario1 =
     sample_os [(''AS_ADDR_OBJ.XML'', scenario_objects),
                (''AS_MUN_HIERARCHY.XML'',
                   [xml_item ''200'' ''100'' ''1'', xml_item ''300'' ''200'' ''1'',
                    xml_item ''400'' ''300'' ''1'']),
                (''AS_HOUSES.XML'', [xml_house ''4'' ''400'' ''5''])]"

definition scenario3 :: os_env where
  "scenario3 =
     sample_os [(''AS_ADDR_OBJ.XML'', scenario_objects),
                (''AS_MUN_HIERARCHY.XML'',
                   [xml_item ''200'' ''100'' ''1'', xml_item ''300'' ''200'' ''1'']),
                (''AS_ADM_HIERARCHY.XML'', [xml_item ''400'' ''300'' ''1'']),
                (''AS_HOUSES.XML'', [xml_house ''4'' ''400'' ''5''])]"

text \<open>
  Scenario 1 with the street written \<^verbatim>\<open>0300\<close> in its own record and in the edge of the house,
  and \<^verbatim>\<open>300\<close> in the edge of the street.
\<close>

definition padded_street_sample :: os_env where
  "padded_street_sample =
     sample_os [(''AS_ADDR_OBJ.XML'',
                   [xml_object ''1'' ''100'' ''4'' ''M'' ''1'' ''1'',
                    xml_object ''2'' ''200'' ''6'' ''S'' ''1'' ''1'',
                    xml_object ''3'' ''0300'' ''8'' ''R'' ''1'' ''1'']),
                (''AS_MUN_HIERARCHY.XML'',
                   [xml_item ''200'' ''100'' ''1'', xml_item ''300'' ''200'' ''1'',
                    xml_item ''400'' ''0300'' ''1'']),
                (''AS_HOUSES.XML'', [xml_house ''4'' ''400'' ''5''])]"

text \<open>An edge 200 \<rightarrow> 100 that is active but not actual, alone in the municipal file.\<close>

definition stale_item :: element where
  "stale_item =
     \<lparr>tag = ''ITEM'',
      attrib = [(''OBJECTID'', ''200''), (''PARENTOBJID'', ''100''), (''ISACTUAL'', ''0''),
                (''ISACTIVE'', ''1'')]\<rparr>"

definition stale_sample :: os_env where
  "stale_sample = sample_os [(''AS_MUN_HIERARCHY.XML'', [stale_item])]"

text \<open>Scenario 1 with a municipality whose name starts with a space.\<close>

definition spaced_sample :: os_env where
  "spaced_sample =
     sample_os [(''AS_ADDR_OBJ.XML'',
                   [xml_object ''1'' ''100'' ''4'' '' M'' ''1'' ''1'',
                    xml_object ''2'' ''200'' ''6'' ''S'' ''1'' ''1'',
                    xml_object ''3'' ''300'' ''8'' ''R'' ''1'' ''1'']),
                (''AS_MUN_HIERARCHY.XML'',
                   [xml_item ''200'' ''100'' ''1'', xml_item ''300'' ''200'' ''1'',
                    xml_item ''400'' ''300'' ''1'']),
                (''AS_HOUSES.XML'', [xml_house ''4'' ''400'' ''5''])]"

text \<open>
  The store of Scenario 1 before the addresses are composed, with a second house that has a
  street but neither settlement nor municipality, and a third house without any link.
\<close>

definition linked_store :: store where
  "linked_store =
     \<lparr>municipalities = [new_municipality (xml_object ''1'' ''100'' ''4'' ''M'' ''1'' ''1'') 1 100],
      settlements =
        [(new_settlement (xml_object ''2'' ''200'' ''6'' ''S'' ''1'' ''1'') 2 200)
           \<lparr>settlement_municipality_id := Some 100\<rparr>],
      streets =
        [(new_street (xml_object ''3'' ''300'' ''8'' ''R'' ''1'' ''1'') 3 300)
           \<lparr>street_settlement_id := Some 200, street_municipality_id := Some 100\<rparr>],
      houses =
        [(new_house (xml_house ''4'' ''400'' ''5'') 4 400)
           \<lparr>street_id := Some 300, settlement_id := Some 200, municipality_id := Some 100\<rparr>,
         (new_house (xml_house ''5'' ''401'' ''7'') 5 401)\<lparr>street_id := Some 300\<rparr>,
         new_house (xml_house ''6'' ''402'' ''9'') 6 402],
      land_plots = []\<rparr>"

text \<open>
  Three parameters for house 400: a resident count out of range (Scenario 5), a floor count
  and a cadastral number; and the state in which the loop over them starts.
\<close>

definition params_sample :: os_env where
  "params_sample =
     sample_os [(''AS_HOUSES_PARAMS.XML'',
                   [xml_param ''400'' ''14'' ''10000'', xml_param ''400'' ''15'' ''5'',
                    xml_param ''400'' ''8'' ''66:41:1''])]"

definition param_start :: param_state where
  "param_start =
     \<lparr>current = houses linked_store, committed = houses linked_store, failed = False,
      processed = 0, updated = 0\<rparr>"

section \<open>Equivalence of the two resolvers\<close>

lemma walk_mo_eq: "walk_mo lm hm c V = walk_by_level lm hm [''3'', ''4''] c V"
proof (induction lm hm c V rule: walk_mo.induct)
  case (1 lm hm c V)
  show ?case
    by (subst walk_mo.simps, subst walk_by_level.simps)
       (auto split: option.splits simp: "1.IH")
qed

text \<open>
  Claim C3: for every object id and every state of the level map and the parent map,
  \<^verbatim>\<open>find_mo_parent(id)\<close> returns exactly what \<^verbatim>\<open>find_parent_by_level(id, ['3', '4'])\<close> returns,
  the raised \<^verbatim>\<open>ValueError\<close> included.
\<close>

theorem find_mo_parent_equiv:
  "find_mo_parent lm hm oid = find_parent_by_level lm hm oid [''3'', ''4'']"
  by (simp add: find_mo_parent_def find_parent_by_level_def walk_mo_eq)

section \<open>The resolver walks the chain of parents\<close>

lemma nth_parent_add:
  "nth_parent hm c (i + n) = (case nth_parent hm c i of None \<Rightarrow> None | Some d \<Rightarrow> nth_parent hm d n)"
  by (induction i arbitrary: c) (auto split: option.splits)

lemma walk_sound:
  "walk_by_level lm hm T c V = Inr (Some r) \<Longrightarrow>
   \<exists>k a. nth_parent hm c (Suc k) = Some a \<and> level_in (fmlookup lm a) T \<and> py_int a = Some r \<and>
         (\<forall>j b. 1 \<le> j \<and> j \<le> k \<and> nth_parent hm c j = Some b \<longrightarrow> \<not> level_in (fmlookup lm b) T)"
proof (induction lm hm T c V rule: walk_by_level.induct)
  case (1 lm hm T c V)
  from "1.prems" obtain p where p: "fmlookup hm c = Some p" and cV: "c \<noteq> []" "c \<notin> V"
    by (subst (asm) walk_by_level.simps) (auto split: if_splits option.splits)
  show ?case
  proof (cases "level_in (fmlookup lm p) T")
    case True
    with "1.prems" p cV have "int_result p = Inr (Some r)"
      by (subst (asm) walk_by_level.simps) simp
    then have "py_int p = Some r"
      by (auto simp: int_result_def split: option.splits)
    with True p show ?thesis
      by (intro exI[of _ 0] exI[of _ p]) simp
  next
    case False
    with "1.prems" p cV have w: "walk_by_level lm hm T p (insert c V) = Inr (Some r)"
      by (subst (asm) walk_by_level.simps) simp
    from "1.IH"[OF _ p False w] cV obtain k a where
      ka: "nth_parent hm p (Suc k) = Some a" "level_in (fmlookup lm a) T" "py_int a = Some r"
      and fst: "\<forall>j b. 1 \<le> j \<and> j \<le> k \<and> nth_parent hm p j = Some b \<longrightarrow> \<not> level_in (fmlookup lm b) T"
      by auto
    have "\<forall>j b. 1 \<le> j \<and> j \<le> Suc k \<and> nth_parent hm c j = Some b \<longrightarrow> \<not> level_in (fmlookup lm b) T"
    proof (intro allI impI)
      fix j b assume h: "1 \<le> j \<and> j \<le> Suc k \<and> nth_parent hm c j = Some b"
      then obtain j' where j': "j = Suc j'" by (cases j) auto
      with h p have b: "nth_parent hm p j' = Some b" "j' \<le> k" by auto
      show "\<not> level_in (fmlookup lm b) T"
      proof (cases j')
        case 0
        with b False show ?thesis by simp
      next
        case (Suc m)
        then have "1 \<le> j' \<and> j' \<le> k \<and> nth_parent hm p j' = Some b" using b by simp
        with fst show ?thesis by blast
      qed
    qed
    with ka p show ?thesis
      by (intro exI[of _ "Suc k"] exI[of _ a]) simp
  qed
qed

lemma walk_none:
  "(\<forall>k a. nth_parent hm c (Suc k) = Some a \<longrightarrow> \<not> level_in (fmlookup lm a) T) \<Longrightarrow>
   walk_by_level lm hm T c V = Inr None"
proof (induction lm hm T c V rule: walk_by_level.induct)
  case (1 lm hm T c V)
  show ?case
  proof (cases "c \<noteq> [] \<and> c \<notin> V")
    case False
    then show ?thesis by (subst walk_by_level.simps) auto
  next
    case True
    show ?thesis
    proof (cases "fmlookup hm c")
      case None
      with True show ?thesis by (subst walk_by_level.simps) simp
    next
      case (Some p)
      from "1.prems"[rule_format, of 0 p] Some have np: "\<not> level_in (fmlookup lm p) T" by simp
      have "\<forall>k a. nth_parent hm p (Suc k) = Some a \<longrightarrow> \<not> level_in (fmlookup lm a) T"
      proof (intro allI impI)
        fix k a assume "nth_parent hm p (Suc k) = Some a"
        with Some have "nth_parent hm c (Suc (Suc k)) = Some a" by simp
        with "1.prems" show "\<not> level_in (fmlookup lm a) T" by blast
      qed
      from "1.IH"[OF True Some np this] True Some np show ?thesis
        by (subst walk_by_level.simps) simp
    qed
  qed
qed


lemma walk_complete:
  "nth_parent hm c (Suc k) = Some a \<Longrightarrow> level_in (fmlookup lm a) T \<Longrightarrow>
   (\<forall>j b. j \<le> k \<and> nth_parent hm c j = Some b \<longrightarrow>
      b \<noteq> [] \<and> b \<notin> V \<and> (1 \<le> j \<longrightarrow> \<not> level_in (fmlookup lm b) T)) \<Longrightarrow>
   walk_by_level lm hm T c V = int_result a"
proof (induction k arbitrary: c V)
  case 0
  from "0.prems"(1) have l: "fmlookup hm c = Some a"
    by (auto split: option.splits)
  from "0.prems"(3)[rule_format, of 0 c] have "c \<noteq> [] \<and> c \<notin> V" by simp
  with l "0.prems"(2) show ?case
    by (subst walk_by_level.simps) simp
next
  case (Suc k)
  from Suc.prems(1) obtain p where l: "fmlookup hm c = Some p"
    and pa: "nth_parent hm p (Suc k) = Some a"
    by (auto split: option.splits)
  from Suc.prems(3)[rule_format, of 0 c] have c: "c \<noteq> [] \<and> c \<notin> V" by simp
  from Suc.prems(3)[rule_format, of 1 p] l have np: "\<not> level_in (fmlookup lm p) T" by simp
  have inv: "\<forall>j b. j \<le> k \<and> nth_parent hm p j = Some b \<longrightarrow>
      b \<noteq> [] \<and> b \<notin> insert c V \<and> (1 \<le> j \<longrightarrow> \<not> level_in (fmlookup lm b) T)"
  proof (intro allI impI)
    fix j b assume h: "j \<le> k \<and> nth_parent hm p j = Some b"
    with l have cj: "nth_parent hm c (Suc j) = Some b" by simp
    from Suc.prems(3)[rule_format, of "Suc j" b] h cj
    have b: "b \<noteq> []" "b \<notin> V" "\<not> level_in (fmlookup lm b) T" by auto
    have "b \<noteq> c"
    proof
      assume "b = c"
      with cj have per: "nth_parent hm c (Suc j) = Some c" by simp
      have "nth_parent hm c (Suc j + (Suc k - j)) = nth_parent hm c (Suc k - j)"
        using nth_parent_add[of hm c "Suc j" "Suc k - j"] per by simp
      moreover have "Suc j + (Suc k - j) = Suc (Suc k)" using h by simp
      ultimately have "nth_parent hm c (Suc k - j) = Some a"
        using Suc.prems(1) by simp
      moreover have "1 \<le> Suc k - j \<and> Suc k - j \<le> Suc k" using h by auto
      ultimately have "\<not> level_in (fmlookup lm a) T"
        using Suc.prems(3)[rule_format, of "Suc k - j" a] by simp
      with Suc.prems(2) show False by simp
    qed
    with b show "b \<noteq> [] \<and> b \<notin> insert c V \<and> (1 \<le> j \<longrightarrow> \<not> level_in (fmlookup lm b) T)"
      by simp
  qed
  from Suc.IH[OF pa Suc.prems(2) inv] c l np show ?case
    by (subst walk_by_level.simps) simp
qed

lemma digit_facts:
  "is_digit c \<Longrightarrow> c \<noteq> CHR ''-'' \<and> c \<noteq> CHR ''+'' \<and> c \<noteq> CHR ''_'' \<and> \<not> py_isspace c"
  by (auto simp: is_digit_def py_isspace_def)

lemma digit_char_props: "d < 10 \<Longrightarrow> is_digit (digit_char d) \<and> digit_val (digit_char d) = d"
  by (simp add: is_digit_def digit_val_def digit_char_def)

lemma digits_value_all:
  "ds \<noteq> [] \<Longrightarrow> \<forall>c \<in> set ds. is_digit c \<Longrightarrow>
   digits_value acc ds = Some (foldl (\<lambda>a c. 10 * a + digit_val c) acc ds)"
proof (induction acc ds rule: digits_value.induct)
  case (3 acc c d cs)
  then show ?case using digit_facts[of d] by simp
qed simp_all

lemma nat_digits_props:
  "nat_digits n \<noteq> [] \<and> (\<forall>c \<in> set (nat_digits n). is_digit c) \<and>
   foldl (\<lambda>a c. 10 * a + digit_val c) 0 (nat_digits n) = n"
proof (induction n rule: nat_digits.induct)
  case (1 n)
  show ?case
  proof (cases "n < 10")
    case True
    then show ?thesis by (subst (1 2 3) nat_digits.simps) (simp add: digit_char_props)
  next
    case False
    with 1 have IH: "nat_digits (n div 10) \<noteq> []" "\<forall>c \<in> set (nat_digits (n div 10)). is_digit c"
      "foldl (\<lambda>a c. 10 * a + digit_val c) 0 (nat_digits (n div 10)) = n div 10" by auto
    have "n mod 10 < 10" by simp
    with IH False show ?thesis
      by (subst (1 2 3) nat_digits.simps) (simp add: digit_char_props)
  qed
qed

lemma py_strip_id: "s \<noteq> [] \<Longrightarrow> \<not> py_isspace (hd s) \<Longrightarrow> \<not> py_isspace (last s) \<Longrightarrow> py_strip s = s"
proof -
  assume a: "s \<noteq> []" "\<not> py_isspace (hd s)" "\<not> py_isspace (last s)"
  then have 1: "dropWhile py_isspace s = s" by (cases s) auto
  from a have "rev s \<noteq> []" "\<not> py_isspace (hd (rev s))" by (auto simp: hd_rev)
  then have "dropWhile py_isspace (rev s) = rev s" by (cases "rev s") auto
  with 1 show ?thesis by (simp add: py_strip_def)
qed

lemma py_int_py_str: "py_int (py_str n) = Some n"
proof -
  define ds where "ds = nat_digits (nat \<bar>n\<bar>)"
  have ds: "ds \<noteq> []" "\<forall>c \<in> set ds. is_digit c"
    "foldl (\<lambda>a c. 10 * a + digit_val c) 0 ds = nat \<bar>n\<bar>"
    using nat_digits_props[of "nat \<bar>n\<bar>"] by (auto simp: ds_def)
  then have hl: "is_digit (hd ds)" "is_digit (last ds)" by auto
  have dv: "digits_value 0 ds = Some (nat \<bar>n\<bar>)"
    using digits_value_all[OF ds(1,2), of 0] ds(3) by simp
  show ?thesis
  proof (cases "n < 0")
    case True
    then have s: "py_str n = CHR ''-'' # ds" by (simp add: py_str_def ds_def)
    have "py_strip (CHR ''-'' # ds) = CHR ''-'' # ds"
      using ds(1) hl digit_facts[of "last ds"] by (intro py_strip_id) (auto simp: py_isspace_def)
    with s dv ds(1) True show ?thesis by (simp add: py_int_def)
  next
    case False
    then have s: "py_str n = ds" by (simp add: py_str_def ds_def)
    have "py_strip ds = ds"
      using ds(1) hl digit_facts by (intro py_strip_id) auto
    with s dv ds(1) False hl digit_facts[of "hd ds"] show ?thesis by (simp add: py_int_def)
  qed
qed

lemma nat_digits_nonempty: "py_str n \<noteq> []"
  using nat_digits_props by (simp add: py_str_def)

lemma nth_parent_none_later:
  "nth_parent hm c n = None \<Longrightarrow> n \<le> m \<Longrightarrow> nth_parent hm c m = None"
  using nth_parent_add[of hm c n "m - n"] by simp

lemma nth_parent_revisit:
  assumes ij: "i < j" and xi: "nth_parent hm c i = Some x" and xj: "nth_parent hm c j = Some x"
    and upto: "\<forall>m b. 1 \<le> m \<and> m \<le> j \<and> nth_parent hm c m = Some b \<longrightarrow> \<not> P b"
  shows "1 \<le> m \<Longrightarrow> nth_parent hm c m = Some b \<Longrightarrow> \<not> P b"
proof (induction m arbitrary: b rule: less_induct)
  case (less m)
  show ?case
  proof (cases "m \<le> j")
    case True
    with less.prems upto show ?thesis by blast
  next
    case False
    then obtain r where r: "m = j + r" "0 < r" by (metis less_imp_add_positive not_le)
    have "nth_parent hm c (j + r) = nth_parent hm x r"
      using nth_parent_add[of hm c j r] xj by simp
    also have "\<dots> = nth_parent hm c (i + r)"
      using nth_parent_add[of hm c i r] xi by simp
    finally have "nth_parent hm c (i + r) = Some b" using less.prems r by simp
    moreover have "i + r < m" "1 \<le> i + r" using r ij by auto
    ultimately show ?thesis using less.IH by blast
  qed
qed

text \<open>
  Claim C4, as amended: for a non-zero id, the resolver returns the id itself when its level is
  among the targets; otherwise an id it returns is the integer value of the first ancestor
  with a target level on the chain of parents, and when such an ancestor exists and no empty
  id precedes it, it is what the resolver returns (\<^verbatim>\<open>int\<close> raising when the ancestor's id is
  not an integer literal).
\<close>

theorem find_parent_by_level_first_ancestor:
  assumes "oid \<noteq> 0"
  shows "(has_level lm T (py_str oid) \<longrightarrow> find_parent_by_level lm hm oid T = Inr (Some oid)) \<and>
    (\<not> has_level lm T (py_str oid) \<longrightarrow>
       (\<forall>r. find_parent_by_level lm hm oid T = Inr (Some r) \<longrightarrow>
          (\<exists>k a. nth_parent hm (py_str oid) (Suc k) = Some a \<and> has_level lm T a \<and>
             py_int a = Some r \<and>
             (\<forall>j b. j \<le> k \<and> nth_parent hm (py_str oid) j = Some b \<longrightarrow> \<not> has_level lm T b))) \<and>
       (\<forall>k a. nth_parent hm (py_str oid) (Suc k) = Some a \<and> has_level lm T a \<and>
             (\<forall>j b. j \<le> k \<and> nth_parent hm (py_str oid) j = Some b \<longrightarrow>
                b \<noteq> [] \<and> \<not> has_level lm T b)
          \<longrightarrow> find_parent_by_level lm hm oid T = int_result a))"
proof (intro conjI impI allI)
  assume "has_level lm T (py_str oid)"
  with assms show "find_parent_by_level lm hm oid T = Inr (Some oid)"
    by (simp add: find_parent_by_level_def has_level_def int_result_def py_int_py_str)
next
  fix r
  assume own: "\<not> has_level lm T (py_str oid)"
    and res: "find_parent_by_level lm hm oid T = Inr (Some r)"
  from own res assms have "walk_by_level lm hm T (py_str oid) {} = Inr (Some r)"
    by (simp add: find_parent_by_level_def has_level_def)
  from walk_sound[OF this] obtain k a where
    ka: "nth_parent hm (py_str oid) (Suc k) = Some a" "level_in (fmlookup lm a) T" "py_int a = Some r"
    and fst: "\<forall>j b. 1 \<le> j \<and> j \<le> k \<and> nth_parent hm (py_str oid) j = Some b \<longrightarrow>
                \<not> level_in (fmlookup lm b) T"
    by blast
  have "\<forall>j b. j \<le> k \<and> nth_parent hm (py_str oid) j = Some b \<longrightarrow> \<not> has_level lm T b"
  proof (intro allI impI)
    fix j b assume h: "j \<le> k \<and> nth_parent hm (py_str oid) j = Some b"
    show "\<not> has_level lm T b"
    proof (cases j)
      case 0
      with h own show ?thesis by simp
    next
      case (Suc j')
      with h fst show ?thesis unfolding has_level_def
        by (metis One_nat_def Suc_le_mono zero_le)
    qed
  qed
  with ka show "\<exists>k a. nth_parent hm (py_str oid) (Suc k) = Some a \<and> has_level lm T a \<and>
      py_int a = Some r \<and>
      (\<forall>j b. j \<le> k \<and> nth_parent hm (py_str oid) j = Some b \<longrightarrow> \<not> has_level lm T b)"
    unfolding has_level_def by blast
next
  fix k a
  assume own: "\<not> has_level lm T (py_str oid)"
    and h: "nth_parent hm (py_str oid) (Suc k) = Some a \<and> has_level lm T a \<and>
      (\<forall>j b. j \<le> k \<and> nth_parent hm (py_str oid) j = Some b \<longrightarrow> b \<noteq> [] \<and> \<not> has_level lm T b)"
  have "walk_by_level lm hm T (py_str oid) {} = int_result a"
    using h by (intro walk_complete[of hm _ k]) (auto simp: has_level_def)
  with own assms show "find_parent_by_level lm hm oid T = int_result a"
    by (simp add: find_parent_by_level_def has_level_def)
qed

lemma walk_by_level_terminates: "walk_by_level_dom (lm, hm, T, c, V)"
proof (induction "card (fmdom' hm - V)" arbitrary: c V rule: less_induct)
  case less
  show ?case
  proof (rule walk_by_level.domintros)
    fix parent_id
    assume "fmlookup hm c = Some parent_id" and "c \<notin> V"
    then have "c \<in> fmdom' hm - V"
      by (simp add: fmdom'I)
    then have "card ((fmdom' hm - V) - {c}) < card (fmdom' hm - V)"
      by (intro card_Diff1_less) auto
    moreover have "fmdom' hm - insert c V = (fmdom' hm - V) - {c}"
      by auto
    ultimately have "card (fmdom' hm - insert c V) < card (fmdom' hm - V)"
      by simp
    then show "walk_by_level_dom (lm, hm, T, parent_id, insert c V)"
      by (rule less)
  qed
qed

lemma not_found_when_chain_ends:
  assumes "\<not> has_level lm T (py_str oid)"
    and "(\<exists>n. nth_parent hm (py_str oid) (Suc n) = None \<and>
            (\<forall>j b. 1 \<le> j \<and> j \<le> n \<and> nth_parent hm (py_str oid) j = Some b \<longrightarrow> \<not> has_level lm T b))
       \<or> (\<exists>i j x. i < j \<and> nth_parent hm (py_str oid) i = Some x \<and>
            nth_parent hm (py_str oid) j = Some x \<and>
            (\<forall>m b. 1 \<le> m \<and> m \<le> j \<and> nth_parent hm (py_str oid) m = Some b \<longrightarrow> \<not> has_level lm T b))"
  shows "find_parent_by_level lm hm oid T = Inr None"
proof -
  have "\<forall>k a. nth_parent hm (py_str oid) (Suc k) = Some a \<longrightarrow> \<not> level_in (fmlookup lm a) T"
    using assms(2)
  proof (elim disjE exE conjE)
    fix n
    assume out: "nth_parent hm (py_str oid) (Suc n) = None"
      and upto: "\<forall>j b. 1 \<le> j \<and> j \<le> n \<and> nth_parent hm (py_str oid) j = Some b \<longrightarrow> \<not> has_level lm T b"
    show ?thesis
    proof (intro allI impI)
      fix k a assume ka: "nth_parent hm (py_str oid) (Suc k) = Some a"
      have "Suc k \<le> n"
      proof (rule ccontr)
        assume "\<not> Suc k \<le> n"
        then have "Suc n \<le> Suc k" by simp
        from nth_parent_none_later[OF out this] ka show False by simp
      qed
      with upto ka show "\<not> level_in (fmlookup lm a) T"
        unfolding has_level_def by (metis One_nat_def Suc_le_mono zero_le)
    qed
  next
    fix i j x
    assume "i < j" "nth_parent hm (py_str oid) i = Some x" "nth_parent hm (py_str oid) j = Some x"
      "\<forall>m b. 1 \<le> m \<and> m \<le> j \<and> nth_parent hm (py_str oid) m = Some b \<longrightarrow> \<not> has_level lm T b"
    from nth_parent_revisit[OF this] show ?thesis
      unfolding has_level_def by (metis One_nat_def Suc_le_mono zero_le)
  qed
  from walk_none[OF this] assms(1) show ?thesis
    by (simp add: find_parent_by_level_def has_level_def)
qed

text \<open>
  Claim C5: from every state (current id and visited set) and for every finite parent map,
  cyclic or not, and every list of target levels, the loop of the resolver terminates: the
  state lies in the domain on which the recursion of the loop is well-founded, each
  iteration that continues removing a key of the map from those not yet visited. The
  resolver returns \<^verbatim>\<open>None\<close> when, starting from an id whose own level is not a target, the
  chain of parents leaves the map or comes back to an id without having met a target level.
\<close>

theorem find_parent_by_level_not_found:
  "walk_by_level_dom (lm, hm, T, c, V) \<and>
   (\<not> has_level lm T (py_str oid) \<and>
    ((\<exists>n. nth_parent hm (py_str oid) (Suc n) = None \<and>
        (\<forall>j b. 1 \<le> j \<and> j \<le> n \<and> nth_parent hm (py_str oid) j = Some b \<longrightarrow> \<not> has_level lm T b))
     \<or> (\<exists>i j x. i < j \<and> nth_parent hm (py_str oid) i = Some x \<and>
        nth_parent hm (py_str oid) j = Some x \<and>
        (\<forall>m b. 1 \<le> m \<and> m \<le> j \<and> nth_parent hm (py_str oid) m = Some b \<longrightarrow> \<not> has_level lm T b)))
    \<longrightarrow> find_parent_by_level lm hm oid T = Inr None)"
  using walk_by_level_terminates[of lm hm T c V] not_found_when_chain_ends[of lm T oid hm]
  by blast

text \<open>
  The instance of Scenario 6: the parent map is the cycle 700 \<rightarrow> 800 \<rightarrow> 700, no level is
  known; the walk comes back to 700 after two steps.
\<close>

theorem find_parent_by_level_not_found_witness:
  "find_parent_by_level fmempty (fmupd ''800'' ''700'' (fmupd ''700'' ''800'' fmempty)) 700
     [''3'', ''4''] = Inr None"
proof -
  let ?hm = "fmupd ''800'' ''700'' (fmupd ''700'' ''800'' fmempty)"
  let ?T = "[''3'', ''4'']"
  have own: "\<not> has_level fmempty ?T (py_str 700)"
    by (simp add: has_level_def level_in_def)
  have s: "py_str 700 = ''700''" by code_simp
  have c0: "nth_parent ?hm (py_str 700) 0 = Some ''700''" by (simp add: s)
  have c2: "nth_parent ?hm (py_str 700) 2 = Some ''700''"
    by (simp add: s numeral_2_eq_2)
  have no: "\<forall>m b. 1 \<le> m \<and> m \<le> 2 \<and> nth_parent ?hm (py_str 700) m = Some b \<longrightarrow>
              \<not> has_level fmempty ?T b"
    by (simp add: has_level_def level_in_def)
  have "\<exists>i j x. i < j \<and> nth_parent ?hm (py_str 700) i = Some x \<and>
          nth_parent ?hm (py_str 700) j = Some x \<and>
          (\<forall>m b. 1 \<le> m \<and> m \<le> j \<and> nth_parent ?hm (py_str 700) m = Some b \<longrightarrow>
             \<not> has_level fmempty ?T b)"
    using c0 c2 no by (intro exI[of _ 0] exI[of _ 2] exI[of _ "''700''"]) simp
  with own show ?thesis
    using find_parent_by_level_not_found
            [where lm = fmempty and hm = "?hm" and T = "?T" and oid = 700 and c = "''700''" and V = "{}"]
    by blast
qed

text \<open>
  The claim as stated fails at the id 0, which the guard \<^verbatim>\<open>if not objectid\<close> turns away
  although its level is a target.
\<close>

theorem find_parent_by_level_zero_counterexample:
  "has_level (fmupd ''0'' ''3'' fmempty) [''3'', ''4''] (py_str 0) \<and>
   find_parent_by_level (fmupd ''0'' ''3'' fmempty) fmempty 0 [''3'', ''4''] \<noteq> Inr (Some 0)"
  by code_simp

text \<open>
  The chain of Scenario 1: levels 100 \<mapsto> 4, 200 \<mapsto> 6, 300 \<mapsto> 8 and edges 200 \<rightarrow> 100,
  300 \<rightarrow> 200, 400 \<rightarrow> 300. The municipality 100 resolves to itself, the house 400 to 100 and,
  for the street levels, to 300.
\<close>

theorem find_parent_by_level_first_ancestor_witness:
  "find_parent_by_level
     (fmupd ''300'' ''8'' (fmupd ''200'' ''6'' (fmupd ''100'' ''4'' fmempty)))
     (fmupd ''400'' ''300'' (fmupd ''300'' ''200'' (fmupd ''200'' ''100'' fmempty)))
     100 [''3'', ''4''] = Inr (Some 100) \<and>
   find_parent_by_level
     (fmupd ''300'' ''8'' (fmupd ''200'' ''6'' (fmupd ''100'' ''4'' fmempty)))
     (fmupd ''400'' ''300'' (fmupd ''300'' ''200'' (fmupd ''200'' ''100'' fmempty)))
     400 [''3'', ''4''] = Inr (Some 100)"
proof -
  let ?lm = "fmupd ''300'' ''8'' (fmupd ''200'' ''6'' (fmupd ''100'' ''4'' fmempty))"
  let ?hm = "fmupd ''400'' ''300'' (fmupd ''300'' ''200'' (fmupd ''200'' ''100'' fmempty))"
  let ?T = "[''3'', ''4'']"
  have s1: "py_str 100 = ''100''" and s4: "py_str 400 = ''400''" by code_simp+
  have own1: "has_level ?lm ?T (py_str 100)"
    by (simp add: s1 has_level_def level_in_def)
  have own4: "\<not> has_level ?lm ?T (py_str 400)"
    by (simp add: s4 has_level_def level_in_def)
  have a: "nth_parent ?hm (py_str 400) (Suc 2) = Some ''100''"
    by (simp add: s4 numeral_2_eq_2)
  have la: "has_level ?lm ?T ''100''"
    by (simp add: has_level_def level_in_def)
  have before: "\<forall>j b. j \<le> 2 \<and> nth_parent ?hm (py_str 400) j = Some b \<longrightarrow>
                  b \<noteq> [] \<and> \<not> has_level ?lm ?T b"
  proof (intro allI impI)
    fix j :: nat and b assume h: "j \<le> 2 \<and> nth_parent ?hm (py_str 400) j = Some b"
    then have "j = 0 \<or> j = 1 \<or> j = 2" by auto
    with h show "b \<noteq> [] \<and> \<not> has_level ?lm ?T b"
      by (auto simp: s4 numeral_2_eq_2 has_level_def level_in_def)
  qed
  have i: "int_result ''100'' = Inr (Some 100)" by code_simp
  have n1: "(100::int) \<noteq> 0" and n4: "(400::int) \<noteq> 0" by simp_all
  from find_parent_by_level_first_ancestor[OF n1, of ?lm ?T ?hm] own1
  have r1: "find_parent_by_level ?lm ?hm 100 ?T = Inr (Some 100)" by blast
  from find_parent_by_level_first_ancestor[OF n4, of ?lm ?T ?hm] own4 a la before
  have "find_parent_by_level ?lm ?hm 400 ?T = int_result ''100''" by blast
  with r1 i show ?thesis by simp
qed

section \<open>The hierarchy index: municipal priority and the active filter\<close>

lemma scan_files_concat: "scan_files step m files = foldl step m (concat files)"
  by (induction files arbitrary: m) (simp_all add: scan_files_def)

lemma mun_step_edge: "active_edge e c p \<Longrightarrow> fmlookup (mun_step hm e) c = Some p"
  by (simp add: active_edge_def mun_step_def truthy_def)

lemma mun_step_other:
  "\<forall>p. \<not> active_edge e c p \<Longrightarrow> fmlookup (mun_step hm e) c = fmlookup hm c"
  by (auto simp: active_edge_def mun_step_def truthy_def split: option.splits)

lemma mun_scan_other:
  "\<forall>e \<in> set ys. \<forall>p. \<not> active_edge e c p \<Longrightarrow>
   fmlookup (foldl mun_step hm ys) c = fmlookup hm c"
  by (induction ys arbitrary: hm) (simp_all add: mun_step_other)

lemma adm_step_edge:
  "active_edge e c q \<Longrightarrow>
   fmlookup (adm_step hm e) c = (if fmlookup hm c = None then Some q else fmlookup hm c)"
  by (simp add: active_edge_def adm_step_def truthy_def)

lemma adm_step_keeps: "fmlookup hm c = Some p \<Longrightarrow> fmlookup (adm_step hm e) c = Some p"
  by (auto simp: adm_step_def)

lemma adm_scan_keeps: "fmlookup hm c = Some p \<Longrightarrow> fmlookup (foldl adm_step hm ys) c = Some p"
  by (induction ys arbitrary: hm) (simp_all add: adm_step_keeps)

text \<open>
  Claim C1: when the municipal files hold an active edge \<open>c \<rightarrow> p\<close> (the last one for \<open>c\<close>
  in scan order, should there be several), the parent map built by
  \<^verbatim>\<open>load_hierarchy_and_levels\<close> maps \<open>c\<close> to \<open>p\<close>, whatever the administrative files
  contain, in particular when they hold an active edge of \<open>c\<close> to another parent. The
  municipal scan writes an active edge unconditionally; the administrative scan writes one
  only while the child is absent from the map.
\<close>

theorem municipal_priority:
  assumes "events cfg os dir ''AS_MUN_HIERARCHY'' = xs @ e # ys"
    and "active_edge e c p"
    and "\<forall>e' \<in> set ys. \<forall>p'. \<not> active_edge e' c p'"
  shows "fmlookup (snd (load_hierarchy_and_levels cfg os dir)) c = Some p \<and>
         (\<forall>hm. fmlookup (mun_step hm e) c = Some p) \<and>
         (\<forall>hm e' q. active_edge e' c q \<longrightarrow>
            fmlookup (adm_step hm e') c = (if fmlookup hm c = None then Some q else fmlookup hm c))"
proof (intro conjI allI impI)
  have "fmlookup (foldl mun_step fmempty (xs @ e # ys)) c = Some p"
    using assms(2,3) by (simp add: mun_scan_other mun_step_edge)
  then have "fmlookup (scan_files mun_step fmempty (read_files cfg os dir ''AS_MUN_HIERARCHY'')) c
      = Some p"
    using assms(1) by (simp add: scan_files_concat events_def)
  then show "fmlookup (snd (load_hierarchy_and_levels cfg os dir)) c = Some p"
    by (simp add: load_hierarchy_and_levels_def Let_def scan_files_concat[of adm_step] adm_scan_keeps)
next
  fix hm show "fmlookup (mun_step hm e) c = Some p"
    using assms(2) by (rule mun_step_edge)
next
  fix hm e' q assume "active_edge e' c q"
  then show "fmlookup (adm_step hm e') c = (if fmlookup hm c = None then Some q else fmlookup hm c)"
    by (rule adm_step_edge)
qed

text \<open>
  Scenario 2: the municipal file says 200 \<rightarrow> 100, the administrative file says
  200 \<rightarrow> 999; the parent map holds 100 for 200.
\<close>

theorem municipal_priority_witness:
  "fmlookup (snd (load_hierarchy_and_levels sample_config
       (sample_os [(''AS_MUN_HIERARCHY.XML'', [xml_item ''200'' ''100'' ''1'']),
                   (''AS_ADM_HIERARCHY.XML'', [xml_item ''200'' ''999'' ''1''])]) ''xml''))
     ''200'' = Some ''100''"
proof -
  let ?os = "sample_os [(''AS_MUN_HIERARCHY.XML'', [xml_item ''200'' ''100'' ''1'']),
                        (''AS_ADM_HIERARCHY.XML'', [xml_item ''200'' ''999'' ''1''])]"
  have ev: "events sample_config ?os ''xml'' ''AS_MUN_HIERARCHY'' = [] @ xml_item ''200'' ''100'' ''1'' # []"
    by code_simp
  have ed: "active_edge (xml_item ''200'' ''100'' ''1'') ''200'' ''100''"
    by code_simp
  have "\<forall>e' \<in> set []. \<forall>p'. \<not> active_edge e' ''200'' p'" by simp
  from municipal_priority[OF ev ed this] show ?thesis by blast
qed

lemma level_step_entry:
  "fmlookup (level_step lm e) k = Some v \<Longrightarrow>
   fmlookup lm k = Some v \<or>
   (active_object e \<and> attr_get e ''OBJECTID'' = Some k \<and> attr_get e ''LEVEL'' = Some v)"
  by (auto simp: level_step_def active_object_def truthy_def split: if_splits option.splits)

lemma level_scan_entry:
  "fmlookup (foldl level_step lm es) k = Some v \<Longrightarrow>
   fmlookup lm k = Some v \<or>
   (\<exists>e \<in> set es. active_object e \<and> attr_get e ''OBJECTID'' = Some k \<and> attr_get e ''LEVEL'' = Some v)"
proof (induction es arbitrary: lm)
  case (Cons e es)
  from Cons.IH[of "level_step lm e"] Cons.prems level_step_entry[of lm e k v]
  show ?case by auto
qed simp

lemma mun_step_entry:
  "fmlookup (mun_step hm e) k = Some v \<Longrightarrow> fmlookup hm k = Some v \<or> active_edge e k v"
  by (auto simp: mun_step_def active_edge_def truthy_def split: if_splits option.splits)

lemma adm_step_entry:
  "fmlookup (adm_step hm e) k = Some v \<Longrightarrow> fmlookup hm k = Some v \<or> active_edge e k v"
  by (auto simp: adm_step_def active_edge_def truthy_def split: if_splits option.splits)

lemma mun_scan_entry:
  "fmlookup (foldl mun_step hm es) k = Some v \<Longrightarrow>
   fmlookup hm k = Some v \<or> (\<exists>e \<in> set es. active_edge e k v)"
proof (induction es arbitrary: hm)
  case (Cons e es)
  from Cons.IH[of "mun_step hm e"] Cons.prems mun_step_entry[of hm e k v]
  show ?case by auto
qed simp

lemma adm_scan_entry:
  "fmlookup (foldl adm_step hm es) k = Some v \<Longrightarrow>
   fmlookup hm k = Some v \<or> (\<exists>e \<in> set es. active_edge e k v)"
proof (induction es arbitrary: hm)
  case (Cons e es)
  from Cons.IH[of "adm_step hm e"] Cons.prems adm_step_entry[of hm e k v]
  show ?case by auto
qed simp

lemma fold_err_inv:
  assumes "fold_err f s xs = Inr s'" and "P s"
    and "\<And>a x b. x \<in> set xs \<Longrightarrow> P a \<Longrightarrow> f a x = Inr b \<Longrightarrow> P b"
  shows "P s'"
  using assms
proof (induction xs arbitrary: s)
  case (Cons x xs)
  from Cons.prems(1) obtain s1 where s1: "f s x = Inr s1" "fold_err f s1 xs = Inr s'"
    by (auto split: sum.splits)
  have "P s1" using Cons.prems(2,3) s1(1) by auto
  with Cons.IH[OF s1(2)] Cons.prems(3) show ?case by auto
qed simp

lemma insert_row_result:
  "insert_row table ia oa mk = Inr t \<Longrightarrow>
   t = table \<or>
   (\<exists>i ob ri ro. ia = Some i \<and> oa = Some ob \<and> pg_bigint i = Some ri \<and> pg_bigint ob = Some ro \<and>
                 t = table @ [mk ri ro])"
  by (auto simp: insert_row_def split: option.splits if_splits)

lemma staged_new:
  assumes "active_object e" "attr_get e ''ID'' = Some i" "pg_bigint i = Some ri"
    "attr_get e ''OBJECTID'' = Some ob" "pg_bigint ob = Some ro"
  shows "staged_from e (new_municipality e ri ro)" "staged_from e (new_settlement e ri ro)"
    "staged_from e (new_street e ri ro)"
  using assms by (simp_all add: staged_from_def new_municipality_def new_settlement_def new_street_def)

lemma insert_row_staged:
  assumes ins: "insert_row table (attr_get e ''ID'') (attr_get e ''OBJECTID'') mk = Inr t"
    and old: "\<forall>r \<in> set table. \<exists>e \<in> set es. staged_from e r"
    and e: "e \<in> set es"
    and new: "\<And>i ri ob ro. attr_get e ''ID'' = Some i \<Longrightarrow> pg_bigint i = Some ri \<Longrightarrow>
                attr_get e ''OBJECTID'' = Some ob \<Longrightarrow> pg_bigint ob = Some ro \<Longrightarrow>
                staged_from e (mk ri ro)"
  shows "\<forall>r \<in> set t. \<exists>e \<in> set es. staged_from e r"
proof -
  from insert_row_result[OF ins] consider (same) "t = table"
    | (app) i ob ri ro where "attr_get e ''ID'' = Some i" "attr_get e ''OBJECTID'' = Some ob"
        "pg_bigint i = Some ri" "pg_bigint ob = Some ro" "t = table @ [mk ri ro]"
    by blast
  then show ?thesis
  proof cases
    case same
    with old show ?thesis by simp
  next
    case app
    from new[OF app(1,3,2,4)] e have "\<exists>e \<in> set es. staged_from e (mk ri ro)" by blast
    with old app(5) show ?thesis by auto
  qed
qed

lemma addr_step_staged:
  assumes "addr_step st e = Inr st'" and "staged_ok es st" and "e \<in> set es"
  shows "staged_ok es st'"
proof (cases "tag e = ''OBJECT'' \<and> both_flags e")
  case False
  with assms show ?thesis by (simp add: addr_step_def)
next
  case True
  then have act: "active_object e" by (simp add: active_object_def both_flags_def)
  consider (m) "attr_or e ''LEVEL'' [] \<in> set [''3'', ''4'']"
    | (s) "attr_or e ''LEVEL'' [] \<notin> set [''3'', ''4'']" "attr_or e ''LEVEL'' [] \<in> set [''5'', ''6'']"
    | (t) "attr_or e ''LEVEL'' [] \<notin> set [''3'', ''4'']" "attr_or e ''LEVEL'' [] \<notin> set [''5'', ''6'']"
          "attr_or e ''LEVEL'' [] \<in> set [''7'', ''8'']"
    | (o) "attr_or e ''LEVEL'' [] \<notin> set [''3'', ''4'']" "attr_or e ''LEVEL'' [] \<notin> set [''5'', ''6'']"
          "attr_or e ''LEVEL'' [] \<notin> set [''7'', ''8'']"
    by blast
  then show ?thesis
  proof cases
    case m
    with True assms(1) obtain t where
      t: "insert_row (municipalities st) (attr_get e ''ID'') (attr_get e ''OBJECTID'')
            (new_municipality e) = Inr t" and st': "st' = st\<lparr>municipalities := t\<rparr>"
      by (auto simp: addr_step_def split: sum.splits)
    have "\<forall>r \<in> set t. \<exists>e \<in> set es. staged_from e r"
      using t assms(2,3) staged_new(1)[OF act]
      by (intro insert_row_staged[of "municipalities st" e "new_municipality e" t es])
         (auto simp: staged_ok_def)
    with assms(2) show ?thesis by (simp add: st' staged_ok_def)
  next
    case s
    with True assms(1) obtain t where
      t: "insert_row (settlements st) (attr_get e ''ID'') (attr_get e ''OBJECTID'')
            (new_settlement e) = Inr t" and st': "st' = st\<lparr>settlements := t\<rparr>"
      by (auto simp: addr_step_def split: sum.splits)
    have "\<forall>r \<in> set t. \<exists>e \<in> set es. staged_from e r"
      using t assms(2,3) staged_new(2)[OF act]
      by (intro insert_row_staged[of "settlements st" e "new_settlement e" t es])
         (auto simp: staged_ok_def)
    with assms(2) show ?thesis by (simp add: st' staged_ok_def)
  next
    case t
    with True assms(1) obtain tb where
      t: "insert_row (streets st) (attr_get e ''ID'') (attr_get e ''OBJECTID'')
            (new_street e) = Inr tb" and st': "st' = st\<lparr>streets := tb\<rparr>"
      by (auto simp: addr_step_def split: sum.splits)
    have "\<forall>r \<in> set tb. \<exists>e \<in> set es. staged_from e r"
      using t assms(2,3) staged_new(3)[OF act]
      by (intro insert_row_staged[of "streets st" e "new_street e" tb es])
         (auto simp: staged_ok_def)
    with assms(2) show ?thesis by (simp add: st' staged_ok_def)
  next
    case o
    with True assms show ?thesis by (simp add: addr_step_def)
  qed
qed

lemma process_addr_objects_staged:
  assumes "process_addr_objects cfg os dir create_schema = Inr st"
  shows "staged_ok (events cfg os dir ''AS_ADDR_OBJ'') st"
proof (cases "find_files cfg os dir ''AS_ADDR_OBJ'' = []")
  case True
  with assms have "st = create_schema" by (simp add: process_addr_objects_def)
  then show ?thesis by (simp add: staged_ok_def create_schema_def)
next
  case False
  with assms have f: "fold_err addr_step create_schema (events cfg os dir ''AS_ADDR_OBJ'') = Inr st"
    by (simp add: process_addr_objects_def events_def)
  have "staged_ok (events cfg os dir ''AS_ADDR_OBJ'') create_schema"
    by (simp add: staged_ok_def create_schema_def)
  from fold_err_inv[OF f, of "staged_ok (events cfg os dir ''AS_ADDR_OBJ'')", OF this]
  show ?thesis using addr_step_staged by blast
qed

text \<open>
  Claim C6, as amended: every entry of the level map comes from an \<^verbatim>\<open>OBJECT\<close> with both flags
  equal to \<^verbatim>\<open>'1'\<close>; every entry of the parent map comes from an \<^verbatim>\<open>ITEM\<close> of the municipal or the
  administrative files with \<^verbatim>\<open>ISACTIVE\<close> equal to \<^verbatim>\<open>'1'\<close>, the only flag that is read on an
  \<^verbatim>\<open>ITEM\<close>; every row that \<^verbatim>\<open>process_addr_objects\<close> stages in \<^verbatim>\<open>municipalities\<close>, \<^verbatim>\<open>settlements\<close>
  and \<^verbatim>\<open>streets\<close> comes from an \<^verbatim>\<open>OBJECT\<close> with both flags equal to \<^verbatim>\<open>'1'\<close>; an \<^verbatim>\<open>OBJECT\<close> that
  fails the test on both flags and an \<^verbatim>\<open>ITEM\<close> that fails the test on \<^verbatim>\<open>ISACTIVE\<close> change nothing
  and raise nothing.
\<close>

theorem only_active_records_enter:
  "(\<forall>k v. fmlookup (fst (load_hierarchy_and_levels cfg os dir)) k = Some v \<longrightarrow>
      (\<exists>e \<in> set (events cfg os dir ''AS_ADDR_OBJ'').
         active_object e \<and> attr_get e ''OBJECTID'' = Some k \<and> attr_get e ''LEVEL'' = Some v)) \<and>
   (\<forall>k v. fmlookup (snd (load_hierarchy_and_levels cfg os dir)) k = Some v \<longrightarrow>
      (\<exists>e \<in> set (events cfg os dir ''AS_MUN_HIERARCHY'') \<union> set (events cfg os dir ''AS_ADM_HIERARCHY'').
         active_edge e k v)) \<and>
   (\<forall>st. process_addr_objects cfg os dir create_schema = Inr st \<longrightarrow>
      (\<forall>r \<in> set (municipalities st). \<exists>e \<in> set (events cfg os dir ''AS_ADDR_OBJ''). staged_from e r) \<and>
      (\<forall>r \<in> set (settlements st). \<exists>e \<in> set (events cfg os dir ''AS_ADDR_OBJ''). staged_from e r) \<and>
      (\<forall>r \<in> set (streets st). \<exists>e \<in> set (events cfg os dir ''AS_ADDR_OBJ''). staged_from e r)) \<and>
   (\<forall>e lm st. \<not> active_object e \<longrightarrow> level_step lm e = lm \<and> addr_step st e = Inr st) \<and>
   (\<forall>e hm. attr_get e ''ISACTIVE'' \<noteq> Some ''1'' \<longrightarrow> mun_step hm e = hm \<and> adm_step hm e = hm)"
proof (intro conjI allI impI ballI)
  fix k v
  assume "fmlookup (fst (load_hierarchy_and_levels cfg os dir)) k = Some v"
  then have "fmlookup (foldl level_step fmempty (events cfg os dir ''AS_ADDR_OBJ'')) k = Some v"
    by (simp add: load_hierarchy_and_levels_def Let_def scan_files_concat events_def)
  from level_scan_entry[OF this]
  show "\<exists>e \<in> set (events cfg os dir ''AS_ADDR_OBJ'').
         active_object e \<and> attr_get e ''OBJECTID'' = Some k \<and> attr_get e ''LEVEL'' = Some v"
    by simp
next
  fix k v
  assume "fmlookup (snd (load_hierarchy_and_levels cfg os dir)) k = Some v"
  then have "fmlookup (foldl adm_step (foldl mun_step fmempty (events cfg os dir ''AS_MUN_HIERARCHY''))
                 (events cfg os dir ''AS_ADM_HIERARCHY'')) k = Some v"
    by (simp add: load_hierarchy_and_levels_def Let_def scan_files_concat events_def)
  from adm_scan_entry[OF this] mun_scan_entry[of fmempty "events cfg os dir ''AS_MUN_HIERARCHY''" k v]
  show "\<exists>e \<in> set (events cfg os dir ''AS_MUN_HIERARCHY'') \<union> set (events cfg os dir ''AS_ADM_HIERARCHY'').
         active_edge e k v"
    by auto
next
  fix st r
  assume "process_addr_objects cfg os dir create_schema = Inr st" "r \<in> set (municipalities st)"
  with process_addr_objects_staged show "\<exists>e \<in> set (events cfg os dir ''AS_ADDR_OBJ''). staged_from e r"
    unfolding staged_ok_def by blast
next
  fix st r
  assume "process_addr_objects cfg os dir create_schema = Inr st" "r \<in> set (settlements st)"
  with process_addr_objects_staged show "\<exists>e \<in> set (events cfg os dir ''AS_ADDR_OBJ''). staged_from e r"
    unfolding staged_ok_def by blast
next
  fix st r
  assume "process_addr_objects cfg os dir create_schema = Inr st" "r \<in> set (streets st)"
  with process_addr_objects_staged show "\<exists>e \<in> set (events cfg os dir ''AS_ADDR_OBJ''). staged_from e r"
    unfolding staged_ok_def by blast
next
  fix e lm st assume "\<not> active_object e"
  then show "level_step lm e = lm" by (auto simp: level_step_def active_object_def)
next
  fix e lm and st :: store assume "\<not> active_object e"
  then show "addr_step st e = Inr st" by (auto simp: addr_step_def active_object_def both_flags_def)
next
  fix e hm assume "attr_get e ''ISACTIVE'' \<noteq> Some ''1''"
  then show "mun_step hm e = hm" by (simp add: mun_step_def)
next
  fix e hm assume "attr_get e ''ISACTIVE'' \<noteq> Some ''1''"
  then show "adm_step hm e = hm" by (simp add: adm_step_def)
qed

text \<open>
  Of two objects and two edges, the inactive ones leave no trace: the level map entry of 100,
  the parent map entry of 200 and the municipality row 100 come from the active elements.
\<close>

theorem only_active_records_enter_witness:
  "(\<exists>e \<in> set (events sample_config filter_sample ''xml'' ''AS_ADDR_OBJ'').
      active_object e \<and> attr_get e ''OBJECTID'' = Some ''100'' \<and> attr_get e ''LEVEL'' = Some ''4'') \<and>
   (\<exists>e \<in> set (events sample_config filter_sample ''xml'' ''AS_MUN_HIERARCHY'') \<union>
           set (events sample_config filter_sample ''xml'' ''AS_ADM_HIERARCHY'').
      active_edge e ''200'' ''100'') \<and>
   (\<exists>e \<in> set (events sample_config filter_sample ''xml'' ''AS_ADDR_OBJ'').
      staged_from e (new_municipality (xml_object ''1'' ''100'' ''4'' ''M'' ''1'' ''1'') 1 100)) \<and>
   level_step fmempty (xml_object ''2'' ''101'' ''4'' ''X'' ''1'' ''0'') = fmempty \<and>
   addr_step create_schema (xml_object ''2'' ''101'' ''4'' ''X'' ''1'' ''0'') = Inr create_schema \<and>
   mun_step fmempty (xml_item ''300'' ''100'' ''0'') = fmempty \<and>
   adm_step fmempty (xml_item ''300'' ''100'' ''0'') = fmempty"
proof -
  note T = only_active_records_enter[of sample_config filter_sample "''xml''"]
  have l: "fmlookup (fst (load_hierarchy_and_levels sample_config filter_sample ''xml'')) ''100''
             = Some ''4''"
    by code_simp
  have h: "fmlookup (snd (load_hierarchy_and_levels sample_config filter_sample ''xml'')) ''200''
             = Some ''100''"
    by code_simp
  have p: "process_addr_objects sample_config filter_sample ''xml'' create_schema =
             Inr \<lparr>municipalities = [new_municipality (xml_object ''1'' ''100'' ''4'' ''M'' ''1'' ''1'') 1 100],
                  settlements = [], streets = [], houses = [], land_plots = []\<rparr>"
    by code_simp
  have io: "\<not> active_object (xml_object ''2'' ''101'' ''4'' ''X'' ''1'' ''0'')"
    by code_simp
  have ii: "attr_get (xml_item ''300'' ''100'' ''0'') ''ISACTIVE'' \<noteq> Some ''1''"
    by code_simp
  from T l have 1: "\<exists>e \<in> set (events sample_config filter_sample ''xml'' ''AS_ADDR_OBJ'').
      active_object e \<and> attr_get e ''OBJECTID'' = Some ''100'' \<and> attr_get e ''LEVEL'' = Some ''4''"
    by blast
  from T h have 2: "\<exists>e \<in> set (events sample_config filter_sample ''xml'' ''AS_MUN_HIERARCHY'') \<union>
           set (events sample_config filter_sample ''xml'' ''AS_ADM_HIERARCHY'').
      active_edge e ''200'' ''100''"
    by blast
  from T p have "\<forall>r \<in> set (municipalities
        \<lparr>municipalities = [new_municipality (xml_object ''1'' ''100'' ''4'' ''M'' ''1'' ''1'') 1 100],
         settlements = [], streets = [], houses = [], land_plots = []\<rparr>).
      \<exists>e \<in> set (events sample_config filter_sample ''xml'' ''AS_ADDR_OBJ''). staged_from e r"
    by blast
  then have 3: "\<exists>e \<in> set (events sample_config filter_sample ''xml'' ''AS_ADDR_OBJ'').
      staged_from e (new_municipality (xml_object ''1'' ''100'' ''4'' ''M'' ''1'' ''1'') 1 100)"
    by simp
  from T io have 4: "level_step fmempty (xml_object ''2'' ''101'' ''4'' ''X'' ''1'' ''0'') = fmempty"
    and 5: "addr_step create_schema (xml_object ''2'' ''101'' ''4'' ''X'' ''1'' ''0'') = Inr create_schema"
    by blast+
  from T ii have 6: "mun_step fmempty (xml_item ''300'' ''100'' ''0'') = fmempty"
    and 7: "adm_step fmempty (xml_item ''300'' ''100'' ''0'') = fmempty"
    by blast+
  from 1 2 3 4 5 6 7 show ?thesis by blast
qed


text \<open>
  The claim as stated asks for both flags on every record that enters the hierarchy index.
  An \<^verbatim>\<open>ITEM\<close> with \<^verbatim>\<open>ISACTUAL\<close> equal to \<^verbatim>\<open>'0'\<close> and \<^verbatim>\<open>ISACTIVE\<close> equal to \<^verbatim>\<open>'1'\<close> enters the parent
  map: the scans of the hierarchy files never read \<^verbatim>\<open>ISACTUAL\<close>.
\<close>

theorem stale_edge_counterexample:
  "attr_get stale_item ''ISACTUAL'' = Some ''0'' \<and>
   attr_get stale_item ''ISACTIVE'' = Some ''1'' \<and>
   events sample_config stale_sample ''xml'' ''AS_MUN_HIERARCHY'' = [stale_item] \<and>
   fmlookup (snd (load_hierarchy_and_levels sample_config stale_sample ''xml'')) ''200'' =
     Some ''100''"
  by code_simp

section \<open>File discovery\<close>

lemma starts_with_iff: "starts_with p s \<longleftrightarrow> (\<exists>v. s = p @ v)"
  by (induction p s rule: starts_with.induct) auto

lemma py_in_iff: "py_in pat s \<longleftrightarrow> (\<exists>u v. s = u @ pat @ v)"
proof (induction s)
  case Nil
  then show ?case by simp
next
  case (Cons c cs)
  have "(\<exists>u v. c # cs = u @ pat @ v) \<longleftrightarrow> (\<exists>v. c # cs = pat @ v) \<or> (\<exists>u v. cs = u @ pat @ v)"
  proof
    assume "\<exists>u v. c # cs = u @ pat @ v"
    then obtain u v where uv: "c # cs = u @ pat @ v" by blast
    show "(\<exists>v. c # cs = pat @ v) \<or> (\<exists>u v. cs = u @ pat @ v)"
    proof (cases u)
      case Nil
      with uv show ?thesis by auto
    next
      case (Cons a u')
      with uv have "cs = u' @ pat @ v" by simp
      then show ?thesis by blast
    qed
  next
    assume "(\<exists>v. c # cs = pat @ v) \<or> (\<exists>u v. cs = u @ pat @ v)"
    then show "\<exists>u v. c # cs = u @ pat @ v"
    proof
      assume "\<exists>v. c # cs = pat @ v"
      then obtain v where "c # cs = [] @ pat @ v" by auto
      then show ?thesis by blast
    next
      assume "\<exists>u v. cs = u @ pat @ v"
      then obtain u v where "c # cs = (c # u) @ pat @ v" by auto
      then show ?thesis by blast
    qed
  qed
  with Cons show ?case by (simp add: starts_with_iff)
qed

lemma py_endswith_iff: "py_endswith s suf \<longleftrightarrow> (\<exists>u. s = u @ suf)"
proof -
  have "(\<exists>v. rev s = rev suf @ v) \<longleftrightarrow> (\<exists>u. s = u @ suf)"
  proof
    assume "\<exists>v. rev s = rev suf @ v"
    then obtain v where "rev s = rev suf @ v" by blast
    then have "s = rev v @ suf" by (metis rev_append rev_rev_ident)
    then show "\<exists>u. s = u @ suf" by blast
  next
    assume "\<exists>u. s = u @ suf"
    then show "\<exists>v. rev s = rev suf @ v" by auto
  qed
  then show ?thesis by (simp add: py_endswith_def starts_with_iff)
qed

lemma set_files_in_dir:
  "set (files_in_dir os pattern d) =
     {path_join os d f |f. f \<in> entries os d \<and> (\<exists>u v. py_upper f = u @ pattern @ v) \<and>
                          (\<exists>u. f = u @ ''.XML'')}"
  by (cases "directory os d")
     (auto simp: files_in_dir_def entries_def file_matches_def py_in_iff py_endswith_iff)

lemma set_find_files:
  "set (find_files cfg os dir pattern) =
     {path_join os d f |d f. d \<in> set (search_dirs cfg os dir) \<and> f \<in> entries os d \<and>
        (\<exists>u v. py_upper f = u @ pattern @ v) \<and> (\<exists>u. f = u @ ''.XML'')}"
  unfolding find_files_def set_concat set_map by (auto simp: set_files_in_dir)

text \<open>
  Claim C9, as amended: \<^verbatim>\<open>find_files\<close> returns exactly the entries of the root directory and,
  when a region code is configured, of the one subdirectory \<^verbatim>\<open><root>/<region_code>\<close>, whose name
  ends with \<^verbatim>\<open>.XML\<close> and, once upper-cased, contains the pattern as it is given; for a pattern
  without lower-case letters, as every call site passes, this is case-insensitive containment.
\<close>

theorem find_files_exact:
  "set (find_files cfg os dir pattern) =
     {path_join os d f |d f. d \<in> set (search_dirs cfg os dir) \<and> f \<in> entries os d \<and>
        (\<exists>u v. py_upper f = u @ pattern @ v) \<and> (\<exists>u. f = u @ ''.XML'')} \<and>
   set (search_dirs cfg os dir) =
     (if truthy (REGION_CODE cfg) then {dir, path_join os dir (the (REGION_CODE cfg))} else {dir}) \<and>
   (py_upper pattern = pattern \<longrightarrow>
      set (find_files cfg os dir pattern) =
        {path_join os d f |d f. d \<in> set (search_dirs cfg os dir) \<and> f \<in> entries os d \<and>
           contains_ci pattern f \<and> (\<exists>u. f = u @ ''.XML'')})"
  by (simp add: set_find_files contains_ci_def search_dirs_def)

text \<open>
  A lower-case pattern finds nothing, although the file name contains it when case is
  ignored.
\<close>

theorem find_files_lower_case_counterexample:
  "py_in (py_upper ''as_houses'') (py_upper ''AS_HOUSES.XML'') \<and>
   py_endswith ''AS_HOUSES.XML'' ''.XML'' \<and>
   directory (sample_os [(''AS_HOUSES.XML'', [])]) ''xml'' = Listing [''AS_HOUSES.XML''] \<and>
   find_files sample_config (sample_os [(''AS_HOUSES.XML'', [])]) ''xml'' ''as_houses'' = []"
  by code_simp

text \<open>
  With the pattern \<^verbatim>\<open>AS_HOUSES\<close>, the entry \<^verbatim>\<open>as_houses_1.XML\<close> of the root is found; the entry
  \<^verbatim>\<open>AS_HOUSES_2.xml\<close>, whose extension is in lower case, is not.
\<close>

theorem find_files_exact_witness:
  "py_upper ''AS_HOUSES'' = ''AS_HOUSES'' \<and>
   ''xml/as_houses_1.XML'' \<in>
     set (find_files sample_config
            (sample_os [(''as_houses_1.XML'', []), (''AS_HOUSES_2.xml'', [])]) ''xml'' ''AS_HOUSES'') \<and>
   ''xml/AS_HOUSES_2.xml'' \<notin>
     set (find_files sample_config
            (sample_os [(''as_houses_1.XML'', []), (''AS_HOUSES_2.xml'', [])]) ''xml'' ''AS_HOUSES'')"
proof -
  let ?os = "sample_os [(''as_houses_1.XML'', []), (''AS_HOUSES_2.xml'', [])]"
  note T = find_files_exact[of sample_config ?os "''xml''" "''AS_HOUSES''"]
  have up: "py_upper ''AS_HOUSES'' = ''AS_HOUSES''" by code_simp
  have d: "''xml'' \<in> set (search_dirs sample_config ?os ''xml'')" by code_simp
  have pj: "path_join ?os ''xml'' ''as_houses_1.XML'' = ''xml/as_houses_1.XML''" by code_simp
  have en: "''as_houses_1.XML'' \<in> entries ?os ''xml''" by code_simp
  have "py_in (py_upper ''AS_HOUSES'') (py_upper ''as_houses_1.XML'')" by code_simp
  then have ci: "contains_ci ''AS_HOUSES'' ''as_houses_1.XML''"
    by (simp add: contains_ci_def py_in_iff)
  have "py_endswith ''as_houses_1.XML'' ''.XML''" by code_simp
  then have ex: "\<exists>u. ''as_houses_1.XML'' = u @ ''.XML''" by (simp add: py_endswith_iff)
  have "''xml/as_houses_1.XML'' \<in>
      {path_join ?os d f |d f. d \<in> set (search_dirs sample_config ?os ''xml'') \<and> f \<in> entries ?os d \<and>
           contains_ci ''AS_HOUSES'' f \<and> (\<exists>u. f = u @ ''.XML'')}"
  proof -
    have "''xml/as_houses_1.XML'' = path_join ?os ''xml'' ''as_houses_1.XML'' \<and>
        ''xml'' \<in> set (search_dirs sample_config ?os ''xml'') \<and>
        ''as_houses_1.XML'' \<in> entries ?os ''xml'' \<and>
        contains_ci ''AS_HOUSES'' ''as_houses_1.XML'' \<and> (\<exists>u. ''as_houses_1.XML'' = u @ ''.XML'')"
      using d pj en ci ex by simp
    then show ?thesis
      by (intro CollectI exI[of _ "''xml''"] exI[of _ "''as_houses_1.XML''"])
  qed
  with T up have 1: "''xml/as_houses_1.XML'' \<in> set (find_files sample_config ?os ''xml'' ''AS_HOUSES'')"
    by blast
  have 2: "''xml/AS_HOUSES_2.xml'' \<notin> set (find_files sample_config ?os ''xml'' ''AS_HOUSES'')"
    by code_simp
  from up 1 2 show ?thesis by blast
qed

section \<open>The municipality fill\<close>

lemma find_mo_parent_own_level:
  "has_level lm [''3'', ''4''] (py_str k) \<Longrightarrow>
   find_mo_parent lm hm k = (if k = 0 then Inr None else Inr (Some k))"
  by (simp add: find_mo_parent_def has_level_def int_result_def py_int_py_str)

lemma length_update_where [simp]: "length (update_where f k t) = length t"
  by (simp add: update_where_def)

lemma nth_update_where:
  "i < length t \<Longrightarrow> update_where f k t ! i = (if objectid (t ! i) = k then f (t ! i) else t ! i)"
  by (simp add: update_where_def)

lemma link_municipality_kept:
  assumes "link_municipality lm hm s k = Inr s'"
    and "own_level_rows_kept lm t0 (municipalities s)"
  shows "own_level_rows_kept lm t0 (municipalities s')"
proof (cases "municipalities s' = municipalities s")
  case True
  with assms(2) show ?thesis by simp
next
  case False
  with assms(1) obtain found where
    f: "find_mo_parent lm hm k = Inr found" "truthy_int found" "found \<noteq> Some k"
    and s': "municipalities s' = update_where (\<lambda>r. r\<lparr>parent_id := found\<rparr>) k (municipalities s)"
    by (auto simp: link_municipality_def split: sum.splits if_splits)
  have nl: "\<not> has_level lm [''3'', ''4''] (py_str k)"
  proof
    assume "has_level lm [''3'', ''4''] (py_str k)"
    from find_mo_parent_own_level[OF this, of hm] f show False
      by (auto simp: truthy_int_def split: if_splits)
  qed
  show ?thesis
    unfolding own_level_rows_kept_def
  proof (intro conjI allI impI)
    show "length (municipalities s') = length t0"
      using assms(2) by (simp add: s' own_level_rows_kept_def)
  next
    fix i assume i: "i < length t0" and h: "has_level lm [''3'', ''4''] (py_str (objectid (t0 ! i)))"
    with assms(2) have same: "municipalities s ! i = t0 ! i" and l: "i < length (municipalities s)"
      by (simp_all add: own_level_rows_kept_def)
    from h nl have "objectid (t0 ! i) \<noteq> k" by auto
    with same l show "municipalities s' ! i = t0 ! i"
      by (simp add: s' nth_update_where)
  qed
qed

lemma link_settlement_municipalities:
  "link_settlement lm hm s k = Inr s' \<Longrightarrow> municipalities s' = municipalities s"
  by (auto simp: link_settlement_def split: sum.splits if_splits)

lemma link_street_municipalities:
  "link_street lm hm s k = Inr s' \<Longrightarrow> municipalities s' = municipalities s"
  by (auto simp: link_street_def split: sum.splits if_splits)

lemma build_links_kept:
  assumes "build_hierarchy_links_fixed lm hm st = Inr st'"
  shows "own_level_rows_kept lm (municipalities st) (municipalities st')"
proof -
  from assms obtain st1 st2 st3 where
    1: "fold_err (link_municipality lm hm) st (map objectid (municipalities st)) = Inr st1"
    and 2: "fold_err (link_settlement lm hm) st1 (map objectid (settlements st1)) = Inr st2"
    and 3: "fold_err (link_street lm hm) st2 (map objectid (streets st2)) = Inr st3"
    and 4: "st' = st3\<lparr>streets := map (street_via_settlement (settlements st3)) (streets st3)\<rparr>"
    by (auto simp: build_hierarchy_links_fixed_def split: sum.splits)
  have 0: "own_level_rows_kept lm (municipalities st) (municipalities st)"
    by (simp add: own_level_rows_kept_def)
  have k1: "own_level_rows_kept lm (municipalities st) (municipalities st1)"
    by (rule fold_err_inv[OF 1, of "\<lambda>s. own_level_rows_kept lm (municipalities st) (municipalities s)", OF 0])
       (rule link_municipality_kept)
  have k2: "own_level_rows_kept lm (municipalities st) (municipalities st2)"
    by (rule fold_err_inv[OF 2, of "\<lambda>s. own_level_rows_kept lm (municipalities st) (municipalities s)", OF k1])
       (simp add: link_settlement_municipalities)
  have k3: "own_level_rows_kept lm (municipalities st) (municipalities st3)"
    by (rule fold_err_inv[OF 3, of "\<lambda>s. own_level_rows_kept lm (municipalities st) (municipalities s)", OF k2])
       (simp add: link_street_municipalities)
  with 4 show ?thesis by simp
qed

lemma addr_step_parent_null:
  assumes "addr_step st e = Inr st'" and "\<forall>r \<in> set (municipalities st). parent_id r = None"
  shows "\<forall>r \<in> set (municipalities st'). parent_id r = None"
proof (cases "municipalities st' = municipalities st")
  case True
  with assms(2) show ?thesis by simp
next
  case False
  with assms(1) obtain t where
    t: "insert_row (municipalities st) (attr_get e ''ID'') (attr_get e ''OBJECTID'')
          (new_municipality e) = Inr t" and st': "municipalities st' = t"
    by (auto simp: addr_step_def split: sum.splits if_splits)
  from insert_row_result[OF t] assms(2) show ?thesis
    unfolding st' by (auto simp: new_municipality_def)
qed

lemma process_addr_objects_parent_null:
  assumes "process_addr_objects cfg os dir create_schema = Inr st"
  shows "\<forall>r \<in> set (municipalities st). parent_id r = None"
proof (cases "find_files cfg os dir ''AS_ADDR_OBJ'' = []")
  case True
  with assms have "st = create_schema" by (simp add: process_addr_objects_def)
  then show ?thesis by (simp add: create_schema_def)
next
  case False
  with assms have f: "fold_err addr_step create_schema (concat (read_files cfg os dir ''AS_ADDR_OBJ'')) = Inr st"
    by (simp add: process_addr_objects_def)
  have 0: "\<forall>r \<in> set (municipalities create_schema). parent_id r = None"
    by (simp add: create_schema_def)
  show ?thesis
    by (rule fold_err_inv[OF f, of "\<lambda>s. \<forall>r \<in> set (municipalities s). parent_id r = None", OF 0])
       (rule addr_step_parent_null)
qed

text \<open>
  Claim C10, as amended: every row that \<^verbatim>\<open>process_addr_objects\<close> stages in \<^verbatim>\<open>municipalities\<close>
  and whose object id has level 3 or 4 in the level map is left as it is by
  \<^verbatim>\<open>build_hierarchy_links_fixed\<close>, so its \<^verbatim>\<open>parent_id\<close> is still null: \<^verbatim>\<open>find_mo_parent\<close> returns
  the id of such an object itself (or nothing for the id 0), and the fill skips a result equal
  to the row's own id.
\<close>

theorem municipality_parent_stays_null:
  assumes "process_addr_objects cfg os dir create_schema = Inr st"
    and "build_hierarchy_links_fixed lm hm st = Inr st'"
  shows "length (municipalities st') = length (municipalities st) \<and>
    (\<forall>i < length (municipalities st).
       has_level lm [''3'', ''4''] (py_str (objectid (municipalities st ! i))) \<longrightarrow>
         municipalities st' ! i = municipalities st ! i \<and>
         parent_id (municipalities st' ! i) = None \<and>
         find_mo_parent lm hm (objectid (municipalities st ! i)) =
           (if objectid (municipalities st ! i) = 0 then Inr None
            else Inr (Some (objectid (municipalities st ! i)))))"
proof -
  from build_links_kept[OF assms(2)] have k: "own_level_rows_kept lm (municipalities st) (municipalities st')" .
  from process_addr_objects_parent_null[OF assms(1)]
  have n: "\<forall>i < length (municipalities st). parent_id (municipalities st ! i) = None"
    by simp
  from k n show ?thesis
    by (auto simp: own_level_rows_kept_def find_mo_parent_own_level)
qed

text \<open>
  The claim as stated fails when an object id is staged as a municipality and a later active
  record gives the same id another level: the municipality 100 receives the parent 50.
\<close>

theorem municipality_parent_counterexample:
  "(case process_addr_objects sample_config relevel_sample ''xml'' create_schema of
      Inl err \<Rightarrow> None
    | Inr st \<Rightarrow>
        (case build_hierarchy_links_fixed
                (fst (load_hierarchy_and_levels sample_config relevel_sample ''xml''))
                (snd (load_hierarchy_and_levels sample_config relevel_sample ''xml'')) st of
           Inl err \<Rightarrow> None
         | Inr st' \<Rightarrow> Some (map (\<lambda>r. (objectid r, level r, parent_id r)) (municipalities st'))))
   = Some [(100, ''4'', Some 50), (50, ''3'', None)]"
  by code_simp

text \<open>
  Scenario 1: the municipality 100 has level 4 in the level map; after the fill its row is
  the staged one and its \<^verbatim>\<open>parent_id\<close> is null.
\<close>

theorem municipality_parent_stays_null_witness:
  "objectid (municipalities (projr (build_hierarchy_links_fixed
       (fst (load_hierarchy_and_levels sample_config scenario1 ''xml''))
       (snd (load_hierarchy_and_levels sample_config scenario1 ''xml''))
       (projr (process_addr_objects sample_config scenario1 ''xml'' create_schema)))) ! 0) = 100 \<and>
   parent_id (municipalities (projr (build_hierarchy_links_fixed
       (fst (load_hierarchy_and_levels sample_config scenario1 ''xml''))
       (snd (load_hierarchy_and_levels sample_config scenario1 ''xml''))
       (projr (process_addr_objects sample_config scenario1 ''xml'' create_schema)))) ! 0) = None"
proof -
  let ?lm = "fst (load_hierarchy_and_levels sample_config scenario1 ''xml'')"
  let ?hm = "snd (load_hierarchy_and_levels sample_config scenario1 ''xml'')"
  let ?st = "projr (process_addr_objects sample_config scenario1 ''xml'' create_schema)"
  let ?st' = "projr (build_hierarchy_links_fixed ?lm ?hm ?st)"
  have "\<not> isl (process_addr_objects sample_config scenario1 ''xml'' create_schema)"
    by code_simp
  then have p: "process_addr_objects sample_config scenario1 ''xml'' create_schema = Inr ?st"
    by simp
  have "\<not> isl (build_hierarchy_links_fixed ?lm ?hm ?st)"
    by code_simp
  then have b: "build_hierarchy_links_fixed ?lm ?hm ?st = Inr ?st'"
    by simp
  have len: "0 < length (municipalities ?st)" by code_simp
  have o: "objectid (municipalities ?st ! 0) = 100" by code_simp
  have "has_level ?lm [''3'', ''4''] (py_str 100)" by code_simp
  with o have lv: "has_level ?lm [''3'', ''4''] (py_str (objectid (municipalities ?st ! 0)))"
    by simp
  from municipality_parent_stays_null[OF p b] len lv
  have e: "municipalities ?st' ! 0 = municipalities ?st ! 0"
    and n: "parent_id (municipalities ?st' ! 0) = None"
    by blast+
  from e o have "objectid (municipalities ?st' ! 0) = 100" by (simp only:)
  with n show ?thesis by (intro conjI)
qed

section \<open>The address composer\<close>

lemma concat_ws_address_parts:
  "concat_ws sep (address_parts m s t h) =
     join_with sep ([name m, typename s @ '' '' @ name s, typename t @ '' '' @ name t] @
        present_part house_prefix (house_number h) @
        present_part building_prefix (building_number h) @
        present_part structure_prefix (structure_number h))"
  by (simp add: concat_ws_def address_parts_def List.map_filter_def present_part_def
           split: option.splits)

lemma address_of_None:
  assumes "municipality_id h = None \<or> settlement_id h = None \<or> street_id h = None \<or>
    lookup_row (municipalities st) (the (municipality_id h)) = None \<or>
    lookup_row (settlements st) (the (settlement_id h)) = None \<or>
    lookup_row (streets st) (the (street_id h)) = None"
  shows "address_of st h = None"
  using assms by (auto simp: address_of_def split: option.splits)

text \<open>
  Claim C8, as amended: the composer changes nothing but \<^verbatim>\<open>full_address\<close>; a house whose three
  foreign keys are set and reference existing rows gets the comma-separated join, in order, of
  the municipality name, the settlement type and name, the street type and name and the
  house, building and structure numbers with their prefixes, the numbers that are null
  skipped, with the spaces at both ends of the joined string trimmed; every other house keeps
  the row it had, so a null \<^verbatim>\<open>full_address\<close> stays null.
\<close>

theorem full_address_composed:
  "length (houses (build_full_addresses st)) = length (houses st) \<and>
   (\<forall>i < length (houses st).
      (\<forall>mi si ti m s t.
         municipality_id (houses st ! i) = Some mi \<and> settlement_id (houses st ! i) = Some si \<and>
         street_id (houses st ! i) = Some ti \<and> lookup_row (municipalities st) mi = Some m \<and>
         lookup_row (settlements st) si = Some s \<and> lookup_row (streets st) ti = Some t \<longrightarrow>
         houses (build_full_addresses st) ! i =
           (houses st ! i)\<lparr>full_address :=
              Some (pg_trim (join_with '', ''
                ([name m, typename s @ '' '' @ name s, typename t @ '' '' @ name t] @
                 present_part house_prefix (house_number (houses st ! i)) @
                 present_part building_prefix (building_number (houses st ! i)) @
                 present_part structure_prefix (structure_number (houses st ! i)))))\<rparr>) \<and>
      (municipality_id (houses st ! i) = None \<or> settlement_id (houses st ! i) = None \<or>
       street_id (houses st ! i) = None \<or>
       lookup_row (municipalities st) (the (municipality_id (houses st ! i))) = None \<or>
       lookup_row (settlements st) (the (settlement_id (houses st ! i))) = None \<or>
       lookup_row (streets st) (the (street_id (houses st ! i))) = None \<longrightarrow>
       houses (build_full_addresses st) ! i = houses st ! i))"
proof (intro conjI allI impI)
  show "length (houses (build_full_addresses st)) = length (houses st)"
    by (simp add: build_full_addresses_def)
next
  fix i mi si ti m s t
  assume i: "i < length (houses st)"
    and h: "municipality_id (houses st ! i) = Some mi \<and> settlement_id (houses st ! i) = Some si \<and>
         street_id (houses st ! i) = Some ti \<and> lookup_row (municipalities st) mi = Some m \<and>
         lookup_row (settlements st) si = Some s \<and> lookup_row (streets st) ti = Some t"
  then have "address_of st (houses st ! i) =
      Some (pg_trim (concat_ws '', '' (address_parts m s t (houses st ! i))))"
    by (simp add: address_of_def)
  with i show "houses (build_full_addresses st) ! i =
           (houses st ! i)\<lparr>full_address :=
              Some (pg_trim (join_with '', ''
                ([name m, typename s @ '' '' @ name s, typename t @ '' '' @ name t] @
                 present_part house_prefix (house_number (houses st ! i)) @
                 present_part building_prefix (building_number (houses st ! i)) @
                 present_part structure_prefix (structure_number (houses st ! i)))))\<rparr>"
    by (simp add: build_full_addresses_def concat_ws_address_parts)
next
  fix i
  assume i: "i < length (houses st)"
    and miss: "municipality_id (houses st ! i) = None \<or> settlement_id (houses st ! i) = None \<or>
       street_id (houses st ! i) = None \<or>
       lookup_row (municipalities st) (the (municipality_id (houses st ! i))) = None \<or>
       lookup_row (settlements st) (the (settlement_id (houses st ! i))) = None \<or>
       lookup_row (streets st) (the (street_id (houses st ! i))) = None"
  from miss have "address_of st (houses st ! i) = None" by (rule address_of_None)
  with i show "houses (build_full_addresses st) ! i = houses st ! i"
    by (simp add: build_full_addresses_def)
qed

text \<open>
  The claim as stated fails when the joined string begins or ends with a space: after a full
  run on Scenario 1 with the municipality name \<^verbatim>\<open>" M"\<close>, the address of house 400 starts with
  \<^verbatim>\<open>"M"\<close>, while the join of the parts starts with the space.
\<close>

theorem full_address_trim_counterexample:
  "map full_address (houses (projr (main digits_float sample_config spaced_sample))) =
     [Some (''M, t S, t R, '' @ house_prefix @ ''5'')] \<and>
   map name (municipalities (projr (main digits_float sample_config spaced_sample))) = ['' M''] \<and>
   join_with '', '' ['' M'', ''t S'', ''t R'', house_prefix @ ''5''] =
     '' M, t S, t R, '' @ house_prefix @ ''5''"
  by code_simp

text \<open>
  On the store of Scenario 1 the house 400 gets its address; the house 401, which has a street
  but no settlement and no municipality, keeps its row and its null address.
\<close>

theorem full_address_composed_witness:
  "full_address (houses (build_full_addresses linked_store) ! 0) =
     Some (''M, t S, t R, '' @ house_prefix @ ''5'') \<and>
   houses (build_full_addresses linked_store) ! 1 = houses linked_store ! 1 \<and>
   full_address (houses linked_store ! 1) = None"
proof -
  note T = full_address_composed[of linked_store]
  have l: "0 < length (houses linked_store)" "1 < length (houses linked_store)" by code_simp+
  have k: "municipality_id (houses linked_store ! 0) = Some 100 \<and>
      settlement_id (houses linked_store ! 0) = Some 200 \<and>
      street_id (houses linked_store ! 0) = Some 300 \<and>
      lookup_row (municipalities linked_store) 100 = Some (hd (municipalities linked_store)) \<and>
      lookup_row (settlements linked_store) 200 = Some (hd (settlements linked_store)) \<and>
      lookup_row (streets linked_store) 300 = Some (hd (streets linked_store))"
    by code_simp
  from T l(1) k have "houses (build_full_addresses linked_store) ! 0 =
      (houses linked_store ! 0)\<lparr>full_address :=
         Some (pg_trim (join_with '', ''
           ([name (hd (municipalities linked_store)),
             typename (hd (settlements linked_store)) @ '' '' @ name (hd (settlements linked_store)),
             typename (hd (streets linked_store)) @ '' '' @ name (hd (streets linked_store))] @
            present_part house_prefix (house_number (houses linked_store ! 0)) @
            present_part building_prefix (building_number (houses linked_store ! 0)) @
            present_part structure_prefix (structure_number (houses linked_store ! 0)))))\<rparr>"
    by blast
  moreover have "pg_trim (join_with '', ''
           ([name (hd (municipalities linked_store)),
             typename (hd (settlements linked_store)) @ '' '' @ name (hd (settlements linked_store)),
             typename (hd (streets linked_store)) @ '' '' @ name (hd (streets linked_store))] @
            present_part house_prefix (house_number (houses linked_store ! 0)) @
            present_part building_prefix (building_number (houses linked_store ! 0)) @
            present_part structure_prefix (structure_number (houses linked_store ! 0))))
        = ''M, t S, t R, '' @ house_prefix @ ''5''"
    by code_simp
  ultimately have 1: "full_address (houses (build_full_addresses linked_store) ! 0) =
     Some (''M, t S, t R, '' @ house_prefix @ ''5'')"
    by simp
  have m: "settlement_id (houses linked_store ! 1) = None" by code_simp
  from T l(2) m have 2: "houses (build_full_addresses linked_store) ! 1 = houses linked_store ! 1"
    by blast
  have 3: "full_address (houses linked_store ! 1) = None" by code_simp
  from 1 2 3 show ?thesis by blast
qed

section \<open>The reconciliation pass\<close>

lemma house_via_street_objectid [simp]: "objectid (house_via_street strs h) = objectid h"
  by (simp add: house_via_street_def split: option.splits)

lemma house_via_street_filled:
  "municipality_id h = None \<Longrightarrow> street_id h = Some ti \<Longrightarrow> lookup_row strs ti = Some t \<Longrightarrow>
   street_municipality_id t = Some m \<Longrightarrow> municipality_id (house_via_street strs h) = Some m"
  by (simp add: house_via_street_def)

lemma house_via_street_no_street: "street_id h = None \<Longrightarrow> house_via_street strs h = h"
  by (simp add: house_via_street_def)

lemma direct_mo_other:
  assumes "direct_mo lm hm s x = Inr s'" and "i < length (houses s)" and "objectid (houses s ! i) \<noteq> x"
  shows "length (houses s') = length (houses s) \<and> houses s' ! i = houses s ! i"
  using assms by (auto simp: direct_mo_def nth_update_where split: sum.splits if_splits)

lemma direct_mo_not_found:
  assumes "direct_mo lm hm s x = Inr s'" and "find_parent_by_level lm hm x [''3'', ''4''] = Inr None"
  shows "s' = s"
  using assms by (simp add: direct_mo_def truthy_int_def)

lemma direct_mo_length:
  "direct_mo lm hm s x = Inr s' \<Longrightarrow> length (houses s') = length (houses s)"
  by (auto simp: direct_mo_def split: sum.splits if_splits)

text \<open>
  The function \<^verbatim>\<open>fix_final_mo_connections\<close> holds the through-street fill. When it returns
  without an error on a store whose houses have distinct object ids (the column is declared
  unique), every house whose \<^verbatim>\<open>municipality_id\<close> is null and whose \<^verbatim>\<open>street_id\<close> references a
  street with a non-null \<^verbatim>\<open>municipality_id\<close> ends with the street's value; a house with a null
  \<^verbatim>\<open>street_id\<close> for which the direct lookup finds nothing keeps a null \<^verbatim>\<open>municipality_id\<close>.
\<close>

lemma through_street_fill:
  assumes "fix_final_mo_connections lm hm st = Inr st'"
    and "distinct (map objectid (houses st))"
  shows "length (houses st') = length (houses st) \<and>
    (\<forall>i < length (houses st).
       (\<forall>ti t m. municipality_id (houses st ! i) = None \<and> street_id (houses st ! i) = Some ti \<and>
            lookup_row (streets st) ti = Some t \<and> street_municipality_id t = Some m \<longrightarrow>
            municipality_id (houses st' ! i) = Some m) \<and>
       (municipality_id (houses st ! i) = None \<and> street_id (houses st ! i) = None \<and>
        find_parent_by_level lm hm (objectid (houses st ! i)) [''3'', ''4''] = Inr None \<longrightarrow>
        municipality_id (houses st' ! i) = None))"
proof -
  define st1 where "st1 = st\<lparr>houses := map (house_via_street (streets st)) (houses st)\<rparr>"
  define rem where
    "rem = take 50000 (map objectid (filter (\<lambda>h. municipality_id h = None) (houses st1)))"
  have f: "fold_err (direct_mo lm hm) st1 rem = Inr st'"
    using assms(1) by (simp add: fix_final_mo_connections_def Let_def st1_def rem_def)
  have len1: "length (houses st1) = length (houses st)" by (simp add: st1_def)
  have ob1: "\<And>j. j < length (houses st) \<Longrightarrow> objectid (houses st1 ! j) = objectid (houses st ! j)"
    by (simp add: st1_def)
  have len: "length (houses st') = length (houses st1)"
    by (rule fold_err_inv[OF f, of "\<lambda>s. length (houses s) = length (houses st1)"])
       (simp_all add: direct_mo_length)
  have filled: "municipality_id (houses st' ! i) = Some m"
    if i: "i < length (houses st)" and n: "municipality_id (houses st ! i) = None"
      and s: "street_id (houses st ! i) = Some ti" and l: "lookup_row (streets st) ti = Some t"
      and m: "street_municipality_id t = Some m" for i ti t m
  proof -
    have m1: "municipality_id (houses st1 ! i) = Some m"
      using i house_via_street_filled[OF n s l m] by (simp add: st1_def)
    have notin: "objectid (houses st ! i) \<notin> set rem"
    proof
      assume "objectid (houses st ! i) \<in> set rem"
      then have "objectid (houses st ! i) \<in> objectid ` {h \<in> set (houses st1). municipality_id h = None}"
        unfolding rem_def using set_take_subset by fastforce
      then obtain h where h: "h \<in> set (houses st1)" "municipality_id h = None"
        "objectid h = objectid (houses st ! i)" by auto
      then obtain j where j: "j < length (houses st1)" "houses st1 ! j = h"
        by (auto simp: in_set_conv_nth)
      with h m1 have "j \<noteq> i" by auto
      moreover have "map objectid (houses st) ! j = map objectid (houses st) ! i"
        using j h ob1[of j] len1 i by simp
      ultimately show False
        using assms(2) j len1 i by (simp add: nth_eq_iff_index_eq del: nth_map)
    qed
    have "length (houses st') = length (houses st1) \<and> houses st' ! i = houses st1 ! i"
    proof (rule fold_err_inv[OF f, of "\<lambda>s. length (houses s) = length (houses st1) \<and>
                                          houses s ! i = houses st1 ! i"])
      show "length (houses st1) = length (houses st1) \<and> houses st1 ! i = houses st1 ! i" by simp
    next
      fix a x b
      assume x: "x \<in> set rem" and a: "length (houses a) = length (houses st1) \<and>
          houses a ! i = houses st1 ! i" and d: "direct_mo lm hm a x = Inr b"
      from x notin have "objectid (houses st ! i) \<noteq> x" by auto
      with a ob1[OF i] have "objectid (houses a ! i) \<noteq> x" by simp
      from direct_mo_other[OF d _ this] a i len1
      show "length (houses b) = length (houses st1) \<and> houses b ! i = houses st1 ! i" by simp
    qed
    with m1 show ?thesis by simp
  qed
  have kept: "municipality_id (houses st' ! i) = None"
    if i: "i < length (houses st)" and n: "municipality_id (houses st ! i) = None"
      and s: "street_id (houses st ! i) = None"
      and r: "find_parent_by_level lm hm (objectid (houses st ! i)) [''3'', ''4''] = Inr None" for i
  proof -
    have same1: "houses st1 ! i = houses st ! i"
      using i house_via_street_no_street[OF s] by (simp add: st1_def)
    have "length (houses st') = length (houses st1) \<and> houses st' ! i = houses st1 ! i"
    proof (rule fold_err_inv[OF f, of "\<lambda>s. length (houses s) = length (houses st1) \<and>
                                          houses s ! i = houses st1 ! i"])
      show "length (houses st1) = length (houses st1) \<and> houses st1 ! i = houses st1 ! i" by simp
    next
      fix a x b
      assume a: "length (houses a) = length (houses st1) \<and> houses a ! i = houses st1 ! i"
        and d: "direct_mo lm hm a x = Inr b"
      show "length (houses b) = length (houses st1) \<and> houses b ! i = houses st1 ! i"
      proof (cases "x = objectid (houses st ! i)")
        case True
        with r direct_mo_not_found[OF d] a show ?thesis by simp
      next
        case False
        with a same1 have "objectid (houses a ! i) \<noteq> x" by auto
        from direct_mo_other[OF d _ this] a i len1 show ?thesis by simp
      qed
    qed
    with same1 n show ?thesis by simp
  qed
  show ?thesis
  proof (intro conjI allI impI)
    show "length (houses st') = length (houses st)" using len len1 by simp
  next
    fix i ti t m
    assume "i < length (houses st)"
      and "municipality_id (houses st ! i) = None \<and> street_id (houses st ! i) = Some ti \<and>
            lookup_row (streets st) ti = Some t \<and> street_municipality_id t = Some m"
    then show "municipality_id (houses st' ! i) = Some m"
      using filled[of i ti t m] by simp
  next
    fix i
    assume "i < length (houses st)"
      and "municipality_id (houses st ! i) = None \<and> street_id (houses st ! i) = None \<and>
        find_parent_by_level lm hm (objectid (houses st ! i)) [''3'', ''4''] = Inr None"
    then show "municipality_id (houses st' ! i) = None"
      using kept[of i] by simp
  qed
qed

text \<open>
  On the store of Scenario 1 with an empty index: house 401, which has the street 300 and no
  municipality, takes the municipality 100 of the street; house 402, without a street, keeps
  none.
\<close>

lemma through_street_fill_example:
  "municipality_id (houses linked_store ! 1) = None \<and>
   municipality_id (houses (projr (fix_final_mo_connections fmempty fmempty linked_store)) ! 1) =
     Some 100 \<and>
   municipality_id (houses (projr (fix_final_mo_connections fmempty fmempty linked_store)) ! 2) = None"
proof -
  let ?st' = "projr (fix_final_mo_connections fmempty fmempty linked_store)"
  have "\<not> isl (fix_final_mo_connections fmempty fmempty linked_store)" by code_simp
  then have r: "fix_final_mo_connections fmempty fmempty linked_store = Inr ?st'" by simp
  have d: "distinct (map objectid (houses linked_store))" by code_simp
  note T = through_street_fill[OF r d]
  have l: "1 < length (houses linked_store)" "2 < length (houses linked_store)" by code_simp+
  have a: "municipality_id (houses linked_store ! 1) = None \<and>
      street_id (houses linked_store ! 1) = Some 300 \<and>
      lookup_row (streets linked_store) 300 = Some (hd (streets linked_store)) \<and>
      street_municipality_id (hd (streets linked_store)) = Some 100"
    by code_simp
  have b: "municipality_id (houses linked_store ! 2) = None \<and>
      street_id (houses linked_store ! 2) = None \<and>
      find_parent_by_level fmempty fmempty (objectid (houses linked_store ! 2)) [''3'', ''4'']
        = Inr None"
    by code_simp
  from T l(1) a have 1: "municipality_id (houses ?st' ! 1) = Some 100" by blast
  from T l(2) b have 2: "municipality_id (houses ?st' ! 2) = None" by blast
  from a 1 2 show ?thesis by blast
qed


text \<open>
  In Scenario 3 the walk from the house itself reaches the municipality, so the run ends with
  the municipality 100 on house 400 without any reconciliation.
\<close>

lemma scenario3_run:
  "map (\<lambda>h. (objectid h, street_id h, settlement_id h, municipality_id h))
     (houses (projr (main digits_float sample_config scenario3))) =
     [(400, Some 300, Some 200, Some 100)]"
  by code_simp

text \<open>
  Claim C2: after a full run of the pipeline, every house whose \<^verbatim>\<open>municipality_id\<close> is null and
  whose \<^verbatim>\<open>street_id\<close> references a street with a non-null \<^verbatim>\<open>municipality_id\<close> carries the value
  of the street. The pipeline does not establish this: \<^verbatim>\<open>main\<close> never calls
  \<^verbatim>\<open>fix_final_mo_connections\<close>. When the street is written \<^verbatim>\<open>0300\<close> in its own record and in the
  edge of house 400, and \<^verbatim>\<open>300\<close> in its edge to settlement 200, the run succeeds and ends with
  street 300 in municipality 100 and house 400 on street 300 with a null \<^verbatim>\<open>municipality_id\<close>;
  \<^verbatim>\<open>fix_final_mo_connections\<close> applied to that final store sets it to 100.
\<close>

theorem main_omits_through_street_fill:
  "\<not> isl (main digits_float sample_config padded_street_sample) \<and>
   map (\<lambda>s. (objectid s, street_settlement_id s, street_municipality_id s))
     (streets (projr (main digits_float sample_config padded_street_sample))) =
     [(300, Some 200, Some 100)] \<and>
   map (\<lambda>h. (objectid h, street_id h, settlement_id h, municipality_id h))
     (houses (projr (main digits_float sample_config padded_street_sample))) =
     [(400, Some 300, None, None)] \<and>
   map (\<lambda>h. (objectid h, street_id h, settlement_id h, municipality_id h))
     (houses (projr (fix_final_mo_connections
        (fst (load_hierarchy_and_levels sample_config padded_street_sample ''xml''))
        (snd (load_hierarchy_and_levels sample_config padded_street_sample ''xml''))
        (projr (main digits_float sample_config padded_street_sample))))) =
     [(400, Some 300, None, Some 100)]"
  by code_simp

section \<open>House parameters are validated\<close>

lemma foldl_inv:
  assumes "P s" and "\<And>a x. x \<in> set xs \<Longrightarrow> P a \<Longrightarrow> P (f a x)"
  shows "P (foldl f s xs)"
  using assms by (induction xs arbitrary: s) simp_all

lemma validate_count:
  assumes "field = ''residents_count'' \<or> field = ''floors_count''"
  shows "validate_param_value flt field v = Some r \<longleftrightarrow>
     py_strip v \<noteq> [] \<and>
     (\<exists>x n. flt (py_strip v) = Some x \<and> int_of_float x = Some n \<and> 0 \<le> n \<and> n \<le> 1000 \<and> r = PInt n)"
  using assms by (auto simp: validate_param_value_def Let_def split: option.splits)

lemma validate_cadastral:
  "validate_param_value flt ''cadastral_number'' v = Some r \<longleftrightarrow>
     py_strip v \<noteq> [] \<and> (\<exists>u w. py_strip v = u @ '':'' @ w) \<and> r = PStr (take 100 (py_strip v))"
  by (auto simp: validate_param_value_def Let_def py_in_iff)

lemma fields_from_refl: "fields_from flt es h h"
  by (simp add: fields_from_def)

lemma fields_from_objectid: "fields_from flt es h0 h \<Longrightarrow> objectid h = objectid h0"
proof -
  assume "fields_from flt es h0 h"
  then have "h\<lparr>residents_count := residents_count h0, floors_count := floors_count h0,
        cadastral_number := cadastral_number h0\<rparr> = h0"
    by (simp add: fields_from_def)
  then have "objectid (h\<lparr>residents_count := residents_count h0, floors_count := floors_count h0,
        cadastral_number := cadastral_number h0\<rparr>) = objectid h0"
    by (simp only:)
  then show ?thesis by simp
qed

lemma set_field_fields_from:
  assumes ff: "fields_from flt es h0 h"
    and e: "e \<in> set es" "tag e = ''PARAM''" "attr_get e ''TYPEID'' = Some typeid"
      "attr_get e ''OBJECTID'' = Some ob" "pg_bigint ob = Some (objectid h)"
      "attr_get e ''VALUE'' = Some raw"
    and pm: "param_mapping typeid = Some field"
    and v: "validate_param_value flt field raw = Some v"
  shows "fields_from flt es h0 (set_field field v h)"
proof -
  have k: "objectid h = objectid h0" using ff by (rule fields_from_objectid)
  from pm consider (c) "typeid = ''8''" "field = ''cadastral_number''"
    | (r) "typeid = ''14''" "field = ''residents_count''"
    | (f) "typeid = ''15''" "field = ''floors_count''"
    by (auto simp: param_mapping_def split: if_splits)
  then show ?thesis
  proof cases
    case c
    from v c obtain s where s: "v = PStr s" by (auto simp: validate_cadastral)
    have "accepted flt es (objectid h0) ''8'' ''cadastral_number'' (PStr s)"
      unfolding accepted_def using e v c s k by (intro bexI[of _ e]) auto
    with ff c s show ?thesis
      by (simp add: fields_from_def set_field_def)
  next
    case r
    from v r obtain n where n: "v = PInt n" by (auto simp: validate_count)
    have "accepted flt es (objectid h0) ''14'' ''residents_count'' (PInt n)"
      unfolding accepted_def using e v r n k by (intro bexI[of _ e]) auto
    with ff r n show ?thesis
      by (simp add: fields_from_def set_field_def)
  next
    case f
    from v f obtain n where n: "v = PInt n" by (auto simp: validate_count)
    have "accepted flt es (objectid h0) ''15'' ''floors_count'' (PInt n)"
      unfolding accepted_def using e v f n k by (intro bexI[of _ e]) auto
    with ff f n show ?thesis
      by (simp add: fields_from_def set_field_def)
  qed
qed

lemma execute_param_inv:
  assumes inv: "params_inv flt es hs0 ps"
    and e: "e \<in> set es" "tag e = ''PARAM''" "attr_get e ''TYPEID'' = Some typeid"
      "attr_get e ''OBJECTID'' = Some ob" "attr_get e ''VALUE'' = Some raw"
    and pm: "param_mapping typeid = Some field"
    and v: "validate_param_value flt field raw = Some v"
  shows "params_inv flt es hs0 (execute_param ps field v ob)"
proof (cases "failed ps")
  case True
  with inv show ?thesis by (simp add: execute_param_def)
next
  case False
  show ?thesis
  proof (cases "pg_bigint ob")
    case None
    with False inv show ?thesis by (simp add: execute_param_def params_inv_def)
  next
    case (Some k)
    have "fields_from flt es (hs0 ! i) (update_where (set_field field v) k (current ps) ! i)"
      if i: "i < length hs0" for i
    proof -
      from inv i have ff: "fields_from flt es (hs0 ! i) (current ps ! i)"
        and l: "i < length (current ps)" by (simp_all add: params_inv_def)
      show ?thesis
      proof (cases "objectid (current ps ! i) = k")
        case True
        with Some have "pg_bigint ob = Some (objectid (current ps ! i))" by simp
        from set_field_fields_from[OF ff e(1,2,3,4) this e(5) pm v] True l
        show ?thesis by (simp add: nth_update_where)
      next
        case False
        with ff l show ?thesis by (simp add: nth_update_where)
      qed
    qed
    with False Some inv show ?thesis
      by (simp add: execute_param_def params_inv_def)
  qed
qed

lemma apply_param_inv:
  assumes "params_inv flt es hs0 ps" and "e \<in> set es" and "tag e = ''PARAM''"
  shows "params_inv flt es hs0 (apply_param flt ps e)"
proof -
  have p1: "params_inv flt es hs0 (ps\<lparr>processed := processed ps + 1\<rparr>)"
    using assms(1) by (simp add: params_inv_def)
  show ?thesis
  proof (cases "truthy (attr_get e ''OBJECTID'') \<and> truthy (attr_get e ''TYPEID'') \<and>
                truthy (attr_get e ''VALUE'') \<and> param_mapping (the (attr_get e ''TYPEID'')) \<noteq> None")
    case False
    with p1 show ?thesis by (auto simp: apply_param_def Let_def)
  next
    case True
    then obtain ob typeid raw field where a: "attr_get e ''OBJECTID'' = Some ob"
      "attr_get e ''TYPEID'' = Some typeid" "attr_get e ''VALUE'' = Some raw"
      "param_mapping typeid = Some field"
      by (auto simp: truthy_def split: option.splits)
    show ?thesis
    proof (cases "validate_param_value flt field raw")
      case None
      with True a p1 show ?thesis by (simp add: apply_param_def Let_def)
    next
      case (Some v)
      from execute_param_inv[OF p1 assms(2,3) a(2,1,3,4) Some] True a Some
      show ?thesis by (simp add: apply_param_def Let_def)
    qed
  qed
qed

lemma commit_inv: "params_inv flt es hs0 ps \<Longrightarrow> params_inv flt es hs0 (commit ps)"
  by (simp add: commit_def params_inv_def)

lemma param_step_inv:
  assumes "params_inv flt es hs0 ps" and "e \<in> set es"
  shows "params_inv flt es hs0 (param_step flt ps e)"
  using assms by (simp add: param_step_def Let_def apply_param_inv commit_inv)

lemma param_file_inv:
  assumes "params_inv flt es hs0 ps" and "set file \<subseteq> set es"
  shows "params_inv flt es hs0 (param_file flt ps file)"
  unfolding param_file_def
proof (rule foldl_inv[where P = "params_inv flt es hs0"])
  show "params_inv flt es hs0 (ps\<lparr>processed := 0, updated := 0\<rparr>)"
    using assms(1) by (simp add: params_inv_def)
next
  fix a x assume "x \<in> set file" "params_inv flt es hs0 a"
  with assms(2) show "params_inv flt es hs0 (param_step flt a x)"
    by (intro param_step_inv) auto
qed

lemma process_house_params_inv:
  "length (houses (process_house_params flt cfg os dir st)) = length (houses st) \<and>
   (\<forall>i < length (houses st).
      fields_from flt (events cfg os dir ''AS_HOUSES_PARAMS'') (houses st ! i)
        (houses (process_house_params flt cfg os dir st) ! i))"
proof (cases "find_files cfg os dir ''AS_HOUSES_PARAMS'' = []")
  case True
  then show ?thesis by (simp add: process_house_params_def fields_from_refl)
next
  case False
  let ?es = "events cfg os dir ''AS_HOUSES_PARAMS''"
  let ?ps0 = "\<lparr>current = houses st, committed = houses st, failed = False,
                 processed = 0, updated = 0\<rparr>"
  have 0: "params_inv flt ?es (houses st) ?ps0"
    by (simp add: params_inv_def fields_from_refl)
  have "params_inv flt ?es (houses st)
          (foldl (param_file flt) ?ps0 (read_files cfg os dir ''AS_HOUSES_PARAMS''))"
  proof (rule foldl_inv[where P = "params_inv flt ?es (houses st)"])
    show "params_inv flt ?es (houses st) ?ps0" by (rule 0)
  next
    fix a x
    assume "x \<in> set (read_files cfg os dir ''AS_HOUSES_PARAMS'')" "params_inv flt ?es (houses st) a"
    then show "params_inv flt ?es (houses st) (param_file flt a x)"
      by (intro param_file_inv) (auto simp: events_def)
  qed
  from commit_inv[OF this] False show ?thesis
    by (simp add: process_house_params_def params_inv_def)
qed

lemma apply_param_rejected:
  assumes "attr_get e ''TYPEID'' = Some typeid" "param_mapping typeid = Some field"
    "attr_get e ''VALUE'' = Some raw" "validate_param_value flt field raw = None"
  shows "apply_param flt ps e = ps\<lparr>processed := processed ps + 1\<rparr>"
  using assms by (simp add: apply_param_def Let_def)

lemma apply_param_ignored:
  assumes "attr_get e ''TYPEID'' = Some typeid" "param_mapping typeid = None"
  shows "apply_param flt ps e = ps\<lparr>processed := processed ps + 1\<rparr>"
  using assms by (simp add: apply_param_def Let_def)

lemma param_step_first:
  assumes "tag e = ''PARAM''" "apply_param flt ps e = ps\<lparr>processed := processed ps + 1\<rparr>"
    "processed ps = 0"
  shows "param_step flt ps e = ps\<lparr>processed := 1\<rparr>"
  using assms by (simp add: param_step_def Let_def)

text \<open>
  Claim C7, as amended. A count (type 14 or 15) passes the validation exactly when the
  trimmed value is non-empty, \<^verbatim>\<open>float\<close> accepts it, the truncation of the float to an integer
  \<open>n\<close> exists and \<open>0 \<le> n \<le> 1000\<close>; a cadastral number (type 8) passes exactly when the
  trimmed value is non-empty and contains a colon, and what is stored is its first 100
  characters. After \<^verbatim>\<open>process_house_params\<close>, which cannot raise, every house has in each of
  the three fields its old value or a value accepted from a record of its own id and of the
  field's type, and is otherwise unchanged. A record with a rejected value changes nothing but
  the count of records read.
\<close>

theorem params_only_validated:
  "(\<forall>field v r. field = ''residents_count'' \<or> field = ''floors_count'' \<longrightarrow>
      (validate_param_value flt field v = Some r \<longleftrightarrow>
         py_strip v \<noteq> [] \<and>
         (\<exists>x n. flt (py_strip v) = Some x \<and> int_of_float x = Some n \<and> 0 \<le> n \<and> n \<le> 1000 \<and>
                r = PInt n))) \<and>
   (\<forall>v r. validate_param_value flt ''cadastral_number'' v = Some r \<longleftrightarrow>
         py_strip v \<noteq> [] \<and> (\<exists>u w. py_strip v = u @ '':'' @ w) \<and>
         r = PStr (take 100 (py_strip v))) \<and>
   length (houses (process_house_params flt cfg os dir st)) = length (houses st) \<and>
   (\<forall>i < length (houses st).
      fields_from flt (events cfg os dir ''AS_HOUSES_PARAMS'') (houses st ! i)
        (houses (process_house_params flt cfg os dir st) ! i)) \<and>
   (\<forall>ps e typeid field raw.
      attr_get e ''TYPEID'' = Some typeid \<and> param_mapping typeid = Some field \<and>
      attr_get e ''VALUE'' = Some raw \<and> validate_param_value flt field raw = None \<longrightarrow>
      apply_param flt ps e = ps\<lparr>processed := processed ps + 1\<rparr>)"
  using process_house_params_inv[of flt cfg os dir st]
  by (intro conjI allI impI)
     (simp_all add: validate_count validate_cadastral apply_param_rejected)

text \<open>
  The claim as stated fails on the counter: the loop has two counters, of the records read and
  of the rows updated. After the record of Scenario 5 the state is the initial one with one
  more record read, which is also the state after a record of an unknown type; nothing counts
  the rejection.
\<close>

theorem no_data_error_counter_counterexample:
  "validate_param_value digits_float ''residents_count'' ''10000'' = None \<and>
   param_step digits_float param_start (xml_param ''400'' ''14'' ''10000'') =
     param_start\<lparr>processed := 1\<rparr> \<and>
   param_step digits_float param_start (xml_param ''400'' ''14'' ''10000'') =
     param_step digits_float param_start (xml_param ''400'' ''99'' ''10000'')"
proof -
  have v: "validate_param_value digits_float ''residents_count'' ''10000'' = None"
    by code_simp
  have p0: "processed param_start = 0" by (simp add: param_start_def)
  have a: "tag (xml_param ''400'' ''14'' ''10000'') = ''PARAM''"
    "attr_get (xml_param ''400'' ''14'' ''10000'') ''TYPEID'' = Some ''14''"
    "param_mapping ''14'' = Some ''residents_count''"
    "attr_get (xml_param ''400'' ''14'' ''10000'') ''VALUE'' = Some ''10000''"
    by code_simp+
  have b: "tag (xml_param ''400'' ''99'' ''10000'') = ''PARAM''"
    "attr_get (xml_param ''400'' ''99'' ''10000'') ''TYPEID'' = Some ''99''"
    "param_mapping ''99'' = None"
    by code_simp+
  have 1: "param_step digits_float param_start (xml_param ''400'' ''14'' ''10000'') =
      param_start\<lparr>processed := 1\<rparr>"
    by (rule param_step_first[OF a(1) apply_param_rejected[OF a(2,3,4) v] p0])
  have 2: "param_step digits_float param_start (xml_param ''400'' ''99'' ''10000'') =
      param_start\<lparr>processed := 1\<rparr>"
    by (rule param_step_first[OF b(1) apply_param_ignored[OF b(2,3)] p0])
  from v 1 2 show ?thesis by simp
qed

text \<open>
  Scenario 5 with two more records, on the store of Scenario 1: the resident count 10000 is
  rejected, so after the run \<^verbatim>\<open>residents_count\<close> of house 400 is still null; the floor count
  5 passes the validation.
\<close>

theorem params_only_validated_witness:
  "residents_count (houses linked_store ! 0) = None \<and>
   residents_count
     (houses (process_house_params digits_float sample_config params_sample ''xml'' linked_store) ! 0)
     = None \<and>
   (\<exists>x n. digits_float (py_strip ''5'') = Some x \<and> int_of_float x = Some n \<and> 0 \<le> n \<and> n \<le> 1000 \<and>
          PInt 5 = PInt n) \<and>
   apply_param digits_float param_start (xml_param ''400'' ''14'' ''10000'') =
     param_start\<lparr>processed := processed param_start + 1\<rparr>"
proof -
  note T = params_only_validated[of digits_float sample_config params_sample "''xml''" linked_store]
  let ?p1 = "xml_param ''400'' ''14'' ''10000''"
  let ?p2 = "xml_param ''400'' ''15'' ''5''"
  let ?p3 = "xml_param ''400'' ''8'' ''66:41:1''"
  let ?es = "events sample_config params_sample ''xml'' ''AS_HOUSES_PARAMS''"
  let ?h' = "houses (process_house_params digits_float sample_config params_sample ''xml'' linked_store) ! 0"
  have ev: "?es = [?p1, ?p2, ?p3]" by code_simp
  have l: "0 < length (houses linked_store)" by code_simp
  have h0: "residents_count (houses linked_store ! 0) = None" by code_simp
  have v1: "validate_param_value digits_float ''residents_count'' ''10000'' = None" by code_simp
  have a1: "attr_get ?p1 ''TYPEID'' = Some ''14''" "attr_get ?p1 ''VALUE'' = Some ''10000''"
    "param_mapping ''14'' = Some ''residents_count''"
    by code_simp+
  have a2: "attr_get ?p2 ''TYPEID'' = Some ''15''" by code_simp
  have a3: "attr_get ?p3 ''TYPEID'' = Some ''8''" by code_simp
  have v2: "validate_param_value digits_float ''floors_count'' ''5'' = Some (PInt 5)" by code_simp
  from T l have "fields_from digits_float ?es (houses linked_store ! 0) ?h'" by blast
  then have "residents_count ?h' = residents_count (houses linked_store ! 0) \<or>
      (\<exists>n. accepted digits_float ?es (objectid (houses linked_store ! 0)) ''14''
              ''residents_count'' (PInt n))"
    by (auto simp: fields_from_def)
  moreover have "\<not> accepted digits_float ?es k ''14'' ''residents_count'' (PInt n)" for k n
    unfolding accepted_def ev using a1 a2 a3 v1 by auto
  ultimately have 1: "residents_count ?h' = None" using h0 by auto
  from T v2 have 2: "\<exists>x n. digits_float (py_strip ''5'') = Some x \<and> int_of_float x = Some n \<and>
      0 \<le> n \<and> n \<le> 1000 \<and> PInt 5 = PInt n"
    by blast
  from T a1 v1 have 3: "apply_param digits_float param_start ?p1 =
      param_start\<lparr>processed := processed param_start + 1\<rparr>"
    by blast
  from h0 1 2 3 show ?thesis by blast
qed

end
